theory Spec2Isabelle
  imports Complex_Main "HOL-Library.Sublist" "HOL-Library.Word"
begin

section \<open>Strings and paths\<close>

text \<open>
  A JavaScript string is modelled as a HOL string whose characters are the code units below
  256 (ASCII and the Latin-1 supplement); higher code units are not represented. Only the
  string operations the modelled functions call are defined: \<open>toLowerCase\<close>,
  \<open>includes\<close>, \<open>indexOf\<close>, \<open>substring\<close>, \<open>trim\<close>, \<open>split(/\s+/)\<close>,
  \<open>replace\<close> of the first occurrence of a character, and the POSIX variants of
  \<open>path.basename\<close> and \<open>path.extname\<close>.
\<close>

text \<open>
  The letters with a lower-case form in this range: A to Z, and U+00C0 to U+00DE without the
  multiplication sign U+00D7. Each is 32 below its lower-case form.
\<close>

definition upper_letters :: string where
  "upper_letters = ''ABCDEFGHIJKLMNOPQRSTUVWXYZ'' @
     [CHR 0xC0, CHR 0xC1, CHR 0xC2, CHR 0xC3, CHR 0xC4, CHR 0xC5, CHR 0xC6, CHR 0xC7,
      CHR 0xC8, CHR 0xC9, CHR 0xCA, CHR 0xCB, CHR 0xCC, CHR 0xCD, CHR 0xCE, CHR 0xCF,
      CHR 0xD0, CHR 0xD1, CHR 0xD2, CHR 0xD3, CHR 0xD4, CHR 0xD5, CHR 0xD6, CHR 0xD8,
      CHR 0xD9, CHR 0xDA, CHR 0xDB, CHR 0xDC, CHR 0xDD, CHR 0xDE]"

definition lower_letters :: string where
  "lower_letters = ''abcdefghijklmnopqrstuvwxyz'' @
     [CHR 0xE0, CHR 0xE1, CHR 0xE2, CHR 0xE3, CHR 0xE4, CHR 0xE5, CHR 0xE6, CHR 0xE7,
      CHR 0xE8, CHR 0xE9, CHR 0xEA, CHR 0xEB, CHR 0xEC, CHR 0xED, CHR 0xEE, CHR 0xEF,
      CHR 0xF0, CHR 0xF1, CHR 0xF2, CHR 0xF3, CHR 0xF4, CHR 0xF5, CHR 0xF6, CHR 0xF8,
      CHR 0xF9, CHR 0xFA, CHR 0xFB, CHR 0xFC, CHR 0xFD, CHR 0xFE]"

definition lower_char :: "char \<Rightarrow> char" where
  "lower_char c = (case map_of (zip upper_letters lower_letters) c of None \<Rightarrow> c | Some d \<Rightarrow> d)"

definition toLowerCase :: "string \<Rightarrow> string" where
  "toLowerCase s = map lower_char s"

fun str_includes :: "string \<Rightarrow> string \<Rightarrow> bool" where
  "str_includes [] w = (w = [])"
| "str_includes (c # s) w = (prefix w (c # s) \<or> str_includes s w)"

text \<open>\<open>indexOf\<close>: the position of the first occurrence, or -1.\<close>

fun indexOf :: "string \<Rightarrow> string \<Rightarrow> int" where
  "indexOf [] w = (if w = [] then 0 else - 1)"
| "indexOf (c # s) w =
     (if prefix w (c # s) then 0
      else let r = indexOf s w in if r < 0 then - 1 else r + 1)"

text \<open>\<open>substring\<close> clamps both positions to the string and swaps them when out of order.\<close>

definition substring :: "string \<Rightarrow> int \<Rightarrow> int \<Rightarrow> string" where
  "substring s a b =
     (let a' = min (nat a) (length s); b' = min (nat b) (length s)
      in take (max a' b' - min a' b') (drop (min a' b') s))"

text \<open>
  The white space of \<open>trim\<close>, of \<open>\s\<close> and of \<open>parseInt\<close>: tab, line feed, vertical
  tab, form feed, carriage return, space and the no-break space U+00A0.
\<close>

definition is_space :: "char \<Rightarrow> bool" where
  "is_space c = (c \<in> set [CHR 0x09, CHR 0x0A, CHR 0x0B, CHR 0x0C, CHR 0x0D, CHR '' '', CHR 0xA0])"

definition trim :: "string \<Rightarrow> string" where
  "trim s = rev (dropWhile is_space (rev (dropWhile is_space s)))"

function split_ws :: "string \<Rightarrow> string list" where
  "split_ws s =
     (let w = takeWhile (\<lambda>c. \<not> is_space c) s; r = dropWhile (\<lambda>c. \<not> is_space c) s
      in if r = [] then [w] else w # split_ws (dropWhile is_space r))"
  by pat_completeness auto
termination
proof (relation "measure length")
  show "wf (measure length)" by simp
next
  fix s w r :: string
  assume r: "r = dropWhile (\<lambda>c. \<not> is_space c) s" and ne: "r \<noteq> []"
  have "length (dropWhile is_space r) \<le> length r" by (rule length_dropWhile_le)
  moreover have "is_space (hd r)" using r ne hd_dropWhile [of "\<lambda>c. \<not> is_space c" s] by auto
  then have "length (dropWhile is_space r) < length r"
    using ne by (cases r) (auto simp: le_imp_less_Suc length_dropWhile_le)
  moreover have "length r \<le> length s" unfolding r by (rule length_dropWhile_le)
  ultimately show "(dropWhile is_space r, s) \<in> measure length" by simp
qed

declare split_ws.simps [simp del]

fun replace_first :: "char \<Rightarrow> char \<Rightarrow> string \<Rightarrow> string" where
  "replace_first a b [] = []"
| "replace_first a b (c # s) = (if c = a then b # s else c # replace_first a b s)"

definition strip_trailing_slashes :: "string \<Rightarrow> string" where
  "strip_trailing_slashes p = rev (dropWhile (\<lambda>c. c = CHR ''/'') (rev p))"

definition basename :: "string \<Rightarrow> string" where
  "basename p = rev (takeWhile (\<lambda>c. c \<noteq> CHR ''/'') (rev (strip_trailing_slashes p)))"

definition extname :: "string \<Rightarrow> string" where
  "extname p =
     (let b = basename p;
          e = rev (takeWhile (\<lambda>c. c \<noteq> CHR ''.'') (rev b));
          pre = rev (drop 1 (dropWhile (\<lambda>c. c \<noteq> CHR ''.'') (rev b)))
      in if CHR ''.'' \<notin> set b \<or> pre = [] \<or> b = ''..'' then [] else CHR ''.'' # e)"

text \<open>
  \<open>path.join\<close> of a directory and a file name: the two are joined by a slash and the
  result is normalised (empty and \<open>.\<close> segments dropped, \<open>..\<close> resolved against the
  segment before it).
\<close>

fun split_on :: "char \<Rightarrow> string \<Rightarrow> string list" where
  "split_on d [] = [[]]"
| "split_on d (c # s) =
     (case split_on d s of
        [] \<Rightarrow> (if c = d then [[], []] else [[c]])
      | w # ws \<Rightarrow> (if c = d then [] # w # ws else (c # w) # ws))"

fun join_with :: "string \<Rightarrow> string list \<Rightarrow> string" where
  "join_with d [] = []"
| "join_with d [w] = w"
| "join_with d (w # ws) = w @ d @ join_with d ws"

fun norm_segments :: "bool \<Rightarrow> string list \<Rightarrow> string list \<Rightarrow> string list" where
  "norm_segments ab acc [] = rev acc"
| "norm_segments ab acc (g # gs) =
     (if g = [] \<or> g = ''.'' then norm_segments ab acc gs
      else if g = ''..'' then
        (case acc of
           [] \<Rightarrow> (if ab then norm_segments ab [] gs else norm_segments ab [g] gs)
         | a # as \<Rightarrow> (if a = ''..'' then norm_segments ab (g # acc) gs
                     else norm_segments ab as gs))
      else norm_segments ab (g # acc) gs)"

definition path_normalize :: "string \<Rightarrow> string" where
  "path_normalize p =
     (if p = [] then ''.''
      else let ab = (hd p = CHR ''/'');
               trailing = (last p = CHR ''/'');
               body = join_with ''/'' (norm_segments ab [] (split_on CHR ''/'' p));
               body' = (if body = [] \<and> \<not> ab then ''.'' else body);
               body'' = (if body' \<noteq> [] \<and> trailing then body' @ ''/'' else body')
           in if ab then CHR ''/'' # body'' else body'')"

definition path_join :: "string \<Rightarrow> string \<Rightarrow> string" where
  "path_join a b =
     (if a = [] \<and> b = [] then ''.''
      else if a = [] then path_normalize b
      else if b = [] then path_normalize a
      else path_normalize (a @ ''/'' @ b))"


text \<open>
  \<open>parseInt\<close> without a radix: leading white space is skipped, a sign is read, a
  \<open>0x\<close> prefix selects radix 16, and the longest prefix of digits is the value; no digit
  at all gives \<open>NaN\<close>, here \<open>None\<close>. The result is an unbounded integer: the rounding of
  values beyond $2^{53}$ to a double is not modelled.
\<close>

definition digit_value :: "char \<Rightarrow> nat option" where
  "digit_value c =
     map_of (zip ''0123456789abcdefABCDEF''
       [0, 1, 2, 3, 4, 5, 6, 7, 8, 9, 10, 11, 12, 13, 14, 15, 10, 11, 12, 13, 14, 15]) c"

definition is_digit :: "nat \<Rightarrow> char \<Rightarrow> bool" where
  "is_digit radix c = (case digit_value c of None \<Rightarrow> False | Some v \<Rightarrow> v < radix)"

definition digits_value :: "nat \<Rightarrow> string \<Rightarrow> nat" where
  "digits_value radix ds = foldl (\<lambda>acc c. acc * radix + (case digit_value c of None \<Rightarrow> 0 | Some v \<Rightarrow> v)) 0 ds"

definition parseInt :: "string \<Rightarrow> int option" where
  "parseInt str =
     (let s0 = dropWhile is_space str;
          neg = (s0 \<noteq> [] \<and> hd s0 = CHR ''-'');
          s1 = (if s0 \<noteq> [] \<and> (hd s0 = CHR ''-'' \<or> hd s0 = CHR ''+'') then tl s0 else s0);
          hex = (prefix ''0x'' s1 \<or> prefix ''0X'' s1);
          s2 = (if hex then drop 2 s1 else s1);
          radix = (if hex then 16 else 10);
          z = takeWhile (is_digit radix) s2
      in if z = [] then None
         else Some ((if neg then - 1 else 1) * int (digits_value radix z)))"

text \<open>Decimal rendering of a number in a template string.\<close>

fun digits_of :: "nat \<Rightarrow> nat \<Rightarrow> string" where
  "digits_of fuel n =
     (if fuel = 0 then []
      else if n < 10 then [''0123456789'' ! n]
      else digits_of (fuel - 1) (n div 10) @ [''0123456789'' ! (n mod 10)])"

declare digits_of.simps [simp del]

definition show_nat :: "nat \<Rightarrow> string" where
  "show_nat n = digits_of (Suc n) n"

section \<open>Data model\<close>

type_synonym bytes = "8 word list"

datatype processing_status = Pending | Processing | Completed | Failed

text \<open>
  The \<open>Document\<close> row as the controller and the processing queue read and write it: the
  fields of the \<open>Document\<close> interface that the modelled code touches and the columns added by
  \<open>migration_v2.sql\<close>. Time stamps and the two JSON copies of the service responses are left
  out. A confidence is a rational number: the values the code handles are decimal literals
  and JSON numbers.
\<close>

type_synonym entities = "(string \<times> string list) list"

record Document =
  doc_id :: int
  filename :: string
  original_filename :: string
  file_size :: nat
  mime_type :: string
  file_path :: string
  file_hash :: string
  project_id :: "int option"
  department :: string
  uploaded_by :: int
  urgency_level :: string
  doc_document_type :: "string option"
  processing_status :: processing_status
  ai_classification :: "string option"
  classification_confidence :: "rat option"
  ai_summary :: "string option"
  summary_confidence :: "rat option"
  ai_keywords :: "string list option"
  extracted_entities :: "entities option"

record User =
  user_id :: int
  email :: string
  user_department :: string
  role :: string

text \<open>A file as multer hands it to the controller.\<close>

record MulterFile =
  m_filename :: string
  originalname :: string
  m_size :: nat
  mimetype :: string
  m_path :: string

datatype error = Error string | StoreUnavailable | CheckViolation string | SyntaxError

section \<open>Environment and state\<close>

text \<open>
  What an \<open>axios.post\<close> call to the external service produces: either the call throws
  (transport error, timeout, non-2xx status), or it returns \<open>response.data\<close>. An absent or
  \<open>undefined\<close> field of the response is \<open>None\<close>.
\<close>

record response_data =
  data_success :: bool
  data_category :: "string option"
  data_document_type :: "string option"
  data_classification :: "string option"
  data_confidence :: "rat option"
  data_summary :: "string option"
  data_keywords :: "string list option"
  data_entities :: "entities option"

datatype axios_result = AxiosThrows | AxiosResponse response_data

text \<open>
  The environment answers the calls that leave the process: the \<open>n\<close>-th HTTP call gets
  \<open>axios_post n\<close>, and the \<open>n\<close>-th call to the record store raises a storage-layer fault
  when \<open>store_fault n\<close> holds. \<open>uploadDir\<close> is \<open>config.upload.uploadDir\<close>.
  \<open>keyword_match\<close> is the text predicate of the store's keyword search (full-text or
  substring matching, whichever the store uses), and \<open>regex_match word summary\<close> is
  what \<open>summary.match\<close> finds, or the error that \<open>new RegExp\<close> throws, for a query word
  with pattern characters that the matcher of \<open>extractSearchHighlights\<close> below does not
  interpret.
\<close>

record env =
  axios_post :: "nat \<Rightarrow> axios_result"
  store_fault :: "nat \<Rightarrow> bool"
  uploadDir :: string
  keyword_match :: "string \<Rightarrow> Document \<Rightarrow> bool"
  regex_match :: "string \<Rightarrow> string \<Rightarrow> error + string list"

text \<open>
  The state is the file system (regular files only: a path maps to its bytes, directories are
  implicit and creating one always succeeds), the documents table with its sequence of ids,
  and the two call counters. \<open>status_writes\<close> records every value written to a row's
  \<open>processing_status\<close>, oldest first; no modelled function reads it.
\<close>

record state =
  fs :: "string \<rightharpoonup> bytes"
  db :: "int \<rightharpoonup> Document"
  next_id :: int
  net_calls :: nat
  store_calls :: nat
  status_writes :: "(int \<times> processing_status) list"

definition existsSync :: "state \<Rightarrow> string \<Rightarrow> bool" where
  "existsSync s p = (fs s p \<noteq> None)"

section \<open>Document record store\<close>

text \<open>
  The columns \<open>classification_confidence\<close> and \<open>summary_confidence\<close> of
  \<open>migration_v2.sql\<close> are \<open>DECIMAL(5,4)\<close> with a \<open>CHECK\<close> between 0 and 1: a value is
  rounded to four decimal places (half away from zero) and the row is rejected when the
  rounded value leaves the interval.
\<close>

definition round4 :: "rat \<Rightarrow> rat" where
  "round4 x =
     (if 0 \<le> x then of_int \<lfloor>x * 10000 + 1 / 2\<rfloor> / 10000
      else - (of_int \<lfloor>- x * 10000 + 1 / 2\<rfloor> / 10000))"

definition decimal_5_4_checked :: "rat \<Rightarrow> rat option" where
  "decimal_5_4_checked x = (let v = round4 x in if 0 \<le> v \<and> v \<le> 1 then Some v else None)"

text \<open>
  The argument of \<open>updateAIProcessingResults\<close>: a partial row. A key that is absent from
  the object literal, or whose value is \<open>undefined\<close>, is \<open>None\<close> and leaves the column as
  it is.
\<close>

record results =
  r_processing_status :: "processing_status option"
  r_ai_classification :: "string option"
  r_classification_confidence :: "rat option"
  r_ai_summary :: "string option"
  r_summary_confidence :: "rat option"
  r_ai_keywords :: "string list option"
  r_extracted_entities :: "entities option"

definition no_results :: results where
  "no_results = \<lparr> r_processing_status = None, r_ai_classification = None,
     r_classification_confidence = None, r_ai_summary = None, r_summary_confidence = None,
     r_ai_keywords = None, r_extracted_entities = None \<rparr>"

definition or_else :: "'a option \<Rightarrow> 'a option \<Rightarrow> 'a option" where
  "or_else new old = (case new of None \<Rightarrow> old | Some v \<Rightarrow> Some v)"

definition checked_confidence :: "rat option \<Rightarrow> error + rat option" where
  "checked_confidence c =
     (case c of
        None \<Rightarrow> Inr None
      | Some x \<Rightarrow> (case decimal_5_4_checked x of
                     None \<Rightarrow> Inl (CheckViolation ''confidence'')
                   | Some v \<Rightarrow> Inr (Some v)))"

definition merge_results :: "Document \<Rightarrow> results \<Rightarrow> error + Document" where
  "merge_results d r =
     (case checked_confidence (r_classification_confidence r) of
        Inl e \<Rightarrow> Inl e
      | Inr cc \<Rightarrow>
          (case checked_confidence (r_summary_confidence r) of
             Inl e \<Rightarrow> Inl e
           | Inr sc \<Rightarrow>
               Inr (d\<lparr> processing_status := (case r_processing_status r of None \<Rightarrow> processing_status d | Some v \<Rightarrow> v),
                       ai_classification := or_else (r_ai_classification r) (ai_classification d),
                       classification_confidence := or_else cc (classification_confidence d),
                       ai_summary := or_else (r_ai_summary r) (ai_summary d),
                       summary_confidence := or_else sc (summary_confidence d),
                       ai_keywords := or_else (r_ai_keywords r) (ai_keywords d),
                       extracted_entities :=
                         or_else (r_extracted_entities r) (extracted_entities d) \<rparr>)))"

text \<open>
  Modelled from the spec: the class \<open>DocumentModel\<close> (models/Document.ts) is not among the
  sources. Following section 4.2, it is typed CRUD over the documents table in which every
  write is atomic per record, a lookup of a missing id is an explicit "no such record"
  outcome, and a storage-layer fault is raised as an error of its own. \<open>create\<close> inserts the
  row under the next id of the sequence; \<open>updateAIProcessingResults\<close> merges the given
  columns into the row, subject to the \<open>CHECK\<close> constraints of the migration, and touches
  nothing when the row is rejected or absent; \<open>deleteDocument\<close> removes the row.
\<close>

definition tick :: "state \<Rightarrow> state" where
  "tick s = s\<lparr>store_calls := Suc (store_calls s)\<rparr>"

definition DocumentModel_create :: "env \<Rightarrow> state \<Rightarrow> Document \<Rightarrow> (error + Document) \<times> state" where
  "DocumentModel_create e s documentData =
     (if store_fault e (store_calls s) then (Inl StoreUnavailable, tick s)
      else let d = documentData\<lparr>doc_id := next_id s\<rparr>
           in (Inr d, (tick s)\<lparr> db := (db s)(next_id s \<mapsto> d), next_id := next_id s + 1,
                 status_writes := status_writes s @ [(next_id s, processing_status d)] \<rparr>))"

definition DocumentModel_findById :: "env \<Rightarrow> state \<Rightarrow> int \<Rightarrow> (error + Document option) \<times> state" where
  "DocumentModel_findById e s i =
     (if store_fault e (store_calls s) then (Inl StoreUnavailable, tick s)
      else (Inr (db s i), tick s))"

definition DocumentModel_updateAIProcessingResults ::
    "env \<Rightarrow> state \<Rightarrow> int \<Rightarrow> results \<Rightarrow> (error + unit) \<times> state" where
  "DocumentModel_updateAIProcessingResults e s i r =
     (if store_fault e (store_calls s) then (Inl StoreUnavailable, tick s)
      else case db s i of
             None \<Rightarrow> (Inr (), tick s)
           | Some d \<Rightarrow>
               (case merge_results d r of
                  Inl err \<Rightarrow> (Inl err, tick s)
                | Inr d' \<Rightarrow>
                    (Inr (), (tick s)\<lparr> db := (db s)(i \<mapsto> d'),
                       status_writes := status_writes s @
                         (case r_processing_status r of None \<Rightarrow> [] | Some v \<Rightarrow> [(i, v)]) \<rparr>)))"

definition DocumentModel_deleteDocument :: "env \<Rightarrow> state \<Rightarrow> int \<Rightarrow> (error + unit) \<times> state" where
  "DocumentModel_deleteDocument e s i =
     (if store_fault e (store_calls s) then (Inl StoreUnavailable, tick s)
      else (Inr (), (tick s)\<lparr> db := (db s)(i := None) \<rparr>))"


section \<open>AI enrichment client\<close>

text \<open>
  \<open>AIProcessingResult\<close> with the fields a modelled caller reads. The class modelled is the
  \<open>AIService\<close> with \<open>generateSummary\<close>, the one \<open>ProcessingQueue.processDocument\<close> calls.
\<close>

record AIProcessingResult =
  document_type :: "string option"
  confidence :: "rat option"
  summary :: "string option"
  keywords_list :: "string list option"
  entities :: "entities option"

text \<open>JavaScript's \<open>a || b\<close> on a string that may be undefined: the empty string is falsy.\<close>

definition or_str :: "string option \<Rightarrow> string option \<Rightarrow> string option" where
  "or_str a b = (case a of None \<Rightarrow> b | Some v \<Rightarrow> if v = [] then b else Some v)"

definition any_includes :: "string \<Rightarrow> string list \<Rightarrow> bool" where
  "any_includes s ws = list_ex (str_includes s) ws"

text \<open>
  The rule cascade of \<open>fallbackClassification\<close>, in the order of the source; the optional
  third parameter \<open>department\<close> is never passed. Each rule gives the document type, the
  confidence, the key points and the relevant departments.
\<close>

definition classification_rules ::
    "string \<Rightarrow> string \<Rightarrow> string \<Rightarrow> string \<times> rat \<times> string list \<times> string list" where
  "classification_rules fname extension content =
     (if any_includes fname [''maintenance'', ''inspection'', ''repair'', ''operation'', ''schedule'']
         \<or> any_includes content [''maintenance'', ''operation'']
         \<or> extension \<in> set [''dwg'', ''dxf'']
      then (''maintenance&operation'', 85 / 100,
            [''Maintenance activity'', ''Operational procedure'', ''Equipment status'', ''Technical drawing''],
            [''MAINTENANCE'', ''OPERATIONS'', ''METRO_ENGINEERING''])
      else if any_includes fname [''bill'', ''invoice'', ''purchase'', ''budget'', ''financial'', ''audit'']
         \<or> any_includes content [''payment'', ''procurement'', ''budget'']
         \<or> extension = ''xlsx''
      then (''finance&procurement'', 85 / 100,
            [''Financial transaction'', ''Purchase order'', ''Budget allocation'', ''Vendor payment''],
            [''FINANCE'', ''PROCUREMENT''])
      else if any_includes fname [''compliance'', ''regulation'', ''standard'', ''audit'']
         \<or> any_includes content [''regulation'', ''mandatory'', ''compliance'', ''standard'']
      then (''compliance&regulatory'', 90 / 100,
            [''Regulatory requirement'', ''Compliance standard'', ''Legal obligation'', ''Audit findings''],
            [''LEGAL'', ''ADMINISTRATION'', ''QUALITY_ASSURANCE''])
      else if any_includes fname [''safety'', ''training'', ''hazard'', ''incident'', ''emergency'']
         \<or> any_includes content [''safety'', ''training'', ''emergency'']
      then (''safety&training'', 90 / 100,
            [''Safety protocol'', ''Training material'', ''Hazard identification'', ''Emergency procedure''],
            [''SAFETY'', ''HR'', ''OPERATIONS''])
      else if any_includes fname [''hr'', ''employee'', ''policy'', ''staff'', ''personnel'']
         \<or> any_includes content [''employee'', ''policy'', ''personnel'']
      then (''humanresources'', 85 / 100,
            [''HR policy'', ''Employee guidelines'', ''Personnel management'', ''Organizational procedure''],
            [''HR'', ''ADMINISTRATION''])
      else if any_includes fname [''legal'', ''contract'', ''agreement'', ''board'', ''minutes'', ''governance'']
         \<or> any_includes content [''contract'', ''board'', ''legal'']
      then (''legal&governance'', 85 / 100,
            [''Legal analysis'', ''Contract terms'', ''Board decision'', ''Governance framework''],
            [''LEGAL'', ''ADMINISTRATION''])
      else (''general communication'', 60 / 100,
            [''Document communication'', ''Information sharing'', ''General correspondence''],
            [''ADMINISTRATION'']))"

definition fallbackClassification :: "string \<Rightarrow> string \<Rightarrow> AIProcessingResult" where
  "fallbackClassification text filePath =
     (let fname = toLowerCase (basename filePath);
          extension = toLowerCase (drop 1 (extname filePath));
          content = toLowerCase text
      in case classification_rules fname extension content of
           (documentType, conf, keyPoints, departmentRelevance) \<Rightarrow>
             \<lparr> document_type = Some documentType,
               confidence = Some conf,
               summary = Some (replace_first CHR ''_'' CHR '' '' documentType @ '' document: ''
                               @ basename filePath),
               keywords_list = Some (take 5 keyPoints),
               entities = Some [(''dates'', []), (''amounts'', []), (''project_codes'', []),
                                (''departments'', departmentRelevance), (''personnel'', [])] \<rparr>)"

definition net_tick :: "state \<Rightarrow> state" where
  "net_tick s = s\<lparr>net_calls := Suc (net_calls s)\<rparr>"

text \<open>
  \<open>classifyDocument\<close> never throws: whatever goes wrong inside its \<open>try\<close> block, the
  \<open>catch\<close> returns the fallback classification.
\<close>

definition classifyDocument :: "env \<Rightarrow> state \<Rightarrow> string \<Rightarrow> string \<Rightarrow> AIProcessingResult \<times> state" where
  "classifyDocument e s text filePath =
     (case axios_post e (net_calls s) of
        AxiosThrows \<Rightarrow> (fallbackClassification text filePath, net_tick s)
      | AxiosResponse d \<Rightarrow>
          if data_success d then
            (\<lparr> document_type =
                 or_str (or_str (data_category d) (data_document_type d)) (data_classification d),
               confidence = data_confidence d,
               summary = Some (case or_str (data_summary d) None of None \<Rightarrow> [] | Some v \<Rightarrow> v),
               keywords_list = Some (case data_keywords d of None \<Rightarrow> [] | Some k \<Rightarrow> k),
               entities = Some (case data_entities d of
                                  None \<Rightarrow> [(''dates'', []), (''amounts'', []), (''project_codes'', [])]
                                | Some en \<Rightarrow> en) \<rparr>, net_tick s)
          else (fallbackClassification text filePath, net_tick s))"

record SummaryResult =
  s_summary :: string
  s_keywords :: "string list"
  s_confidence :: rat

text \<open>
  \<open>fallbackSummary\<close> on the empty text, the only text the processing queue passes: the
  branch for a non-empty text (sentence splitting and word frequencies) is not modelled.
\<close>

definition fallbackSummary :: "string \<Rightarrow> SummaryResult" where
  "fallbackSummary filePath =
     (let fname = basename filePath;
          stem = takeWhile (\<lambda>c. c \<noteq> CHR ''.'') fname
      in \<lparr> s_summary = ''Document summary for '' @ fname,
           s_keywords = [''document'', ''file'', if stem = [] then ''unknown'' else stem],
           s_confidence = 6 / 10 \<rparr>)"

text \<open>
  \<open>generateSummary\<close> with the empty text. A response without a summary makes the log
  line after the result read \<open>result.summary.length\<close> of \<open>undefined\<close>, which throws inside
  the \<open>try\<close> block and so ends in the fallback as well. A confidence of 0 is falsy and
  becomes 0.8.
\<close>

definition generateSummary :: "env \<Rightarrow> state \<Rightarrow> string \<Rightarrow> string option \<Rightarrow> SummaryResult \<times> state" where
  "generateSummary e s filePath documentType =
     (case axios_post e (net_calls s) of
        AxiosThrows \<Rightarrow> (fallbackSummary filePath, net_tick s)
      | AxiosResponse d \<Rightarrow>
          if data_success d then
            (case data_summary d of
               None \<Rightarrow> (fallbackSummary filePath, net_tick s)
             | Some text \<Rightarrow>
                 (\<lparr> s_summary = text,
                    s_keywords = (case data_keywords d of None \<Rightarrow> [] | Some k \<Rightarrow> k),
                    s_confidence = (case data_confidence d of
                                      None \<Rightarrow> 8 / 10
                                    | Some c \<Rightarrow> if c = 0 then 8 / 10 else c) \<rparr>, net_tick s))
          else (fallbackSummary filePath, net_tick s))"

section \<open>File handling of the processing queue\<close>

text \<open>
  \<open>DocumentProcessor\<close>: the SHA-256 digest and the metadata are computed and dropped by the
  caller, so only their failure on a missing file is modelled.
\<close>

definition generateFileHash :: "state \<Rightarrow> string \<Rightarrow> error + unit" where
  "generateFileHash s filePath =
     (case fs s filePath of None \<Rightarrow> Inl (Error ''ENOENT'') | Some b \<Rightarrow> Inr ())"

definition extractMetadata :: "state \<Rightarrow> string \<Rightarrow> error + unit" where
  "extractMetadata s filePath =
     (case fs s filePath of None \<Rightarrow> Inl (Error ''ENOENT'') | Some b \<Rightarrow> generateFileHash s filePath)"

definition validateDocument :: "state \<Rightarrow> string \<Rightarrow> bool" where
  "validateDocument s filePath =
     (if \<not> existsSync s filePath then False
      else case fs s filePath of None \<Rightarrow> False | Some b \<Rightarrow> length b > 0)"

definition moveToProcessingQueue :: "state \<Rightarrow> string \<Rightarrow> string \<Rightarrow> (error + string) \<times> state" where
  "moveToProcessingQueue s filePath targetDir =
     (let fname = basename filePath;
          targetPath = path_join targetDir fname
      in case fs s filePath of
           None \<Rightarrow> (Inl (Error ''ENOENT''), s)
         | Some b \<Rightarrow> (Inr targetPath, s\<lparr> fs := ((fs s)(filePath := None))(targetPath \<mapsto> b) \<rparr>))"

definition prepareDocumentForMLProcessing :: "env \<Rightarrow> state \<Rightarrow> string \<Rightarrow> (error + string) \<times> state" where
  "prepareDocumentForMLProcessing e s filePath =
     (if \<not> validateDocument s filePath then (Inl (Error ''Invalid document file''), s)
      else case extractMetadata s filePath of
             Inl err \<Rightarrow> (Inl err, s)
           | Inr u \<Rightarrow>
               (let mlQueueDir = path_join (uploadDir e) ''ml-queue''
                in moveToProcessingQueue s filePath mlQueueDir))"


section \<open>Processing queue\<close>

record ProcessingJobData =
  job_documentId :: int
  job_filePath :: string
  job_userId :: int
  job_department :: string

text \<open>The body of the inner \<open>try\<close> of \<open>processDocument\<close> (steps 1 to 4).\<close>

definition processDocument_try :: "env \<Rightarrow> state \<Rightarrow> int \<Rightarrow> string \<Rightarrow> (error + unit) \<times> state" where
  "processDocument_try e s i p =
     (case DocumentModel_updateAIProcessingResults e s i (no_results\<lparr> r_processing_status := Some Processing \<rparr>) of
        (Inl err, s1) \<Rightarrow> (Inl err, s1)
      | (Inr u, s1) \<Rightarrow>
          (case classifyDocument e s1 [] p of
             (classificationResult, s2) \<Rightarrow>
               (case generateSummary e s2 p (document_type classificationResult) of
                  (summaryResult, s3) \<Rightarrow>
                    DocumentModel_updateAIProcessingResults e s3 i
                      \<lparr> r_processing_status = Some Completed,
                        r_ai_classification = document_type classificationResult,
                        r_classification_confidence = confidence classificationResult,
                        r_ai_summary = Some (s_summary summaryResult),
                        r_summary_confidence = Some (s_confidence summaryResult),
                        r_ai_keywords = Some (s_keywords summaryResult),
                        r_extracted_entities =
                          Some (case entities classificationResult of None \<Rightarrow> [] | Some en \<Rightarrow> en) \<rparr>)))"

text \<open>The \<open>catch (aiError)\<close> block: mark the row failed, then classify again and complete.\<close>

definition processDocument_catch :: "env \<Rightarrow> state \<Rightarrow> int \<Rightarrow> string \<Rightarrow> (error + unit) \<times> state" where
  "processDocument_catch e s i p =
     (case DocumentModel_updateAIProcessingResults e s i (no_results\<lparr> r_processing_status := Some Failed \<rparr>) of
        (Inl err, s1) \<Rightarrow> (Inl err, s1)
      | (Inr u, s1) \<Rightarrow>
          (case classifyDocument e s1 [] p of
             (fallbackResult, s2) \<Rightarrow>
               DocumentModel_updateAIProcessingResults e s2 i
                 \<lparr> r_processing_status = Some Completed,
                   r_ai_classification = document_type fallbackResult,
                   r_classification_confidence = confidence fallbackResult,
                   r_ai_summary = Some (case or_str (summary fallbackResult) None of
                                          None \<Rightarrow> [] | Some v \<Rightarrow> v),
                   r_summary_confidence = None,
                   r_ai_keywords = Some (case keywords_list fallbackResult of None \<Rightarrow> [] | Some k \<Rightarrow> k),
                   r_extracted_entities =
                     Some (case entities fallbackResult of None \<Rightarrow> [] | Some en \<Rightarrow> en) \<rparr>))"

definition processDocument :: "env \<Rightarrow> state \<Rightarrow> ProcessingJobData \<Rightarrow> (error + unit) \<times> state" where
  "processDocument e s data =
     (let i = job_documentId data; p = job_filePath data
      in if \<not> existsSync s p then (Inl (Error ''File not found''), s)
         else case generateFileHash s p of
                Inl err \<Rightarrow> (Inl err, s)
              | Inr fileHash \<Rightarrow>
                  (case extractMetadata s p of
                     Inl err \<Rightarrow> (Inl err, s)
                   | Inr metadata \<Rightarrow>
                       (case prepareDocumentForMLProcessing e s p of
                          (Inl err, s1) \<Rightarrow> (Inl err, s1)
                        | (Inr preparedData, s1) \<Rightarrow>
                            (case processDocument_try e s1 i p of
                               (Inr u, s2) \<Rightarrow> (Inr (), s2)
                             | (Inl aiError, s2) \<Rightarrow> processDocument_catch e s2 i p))))"

definition addDocumentForProcessing :: "env \<Rightarrow> state \<Rightarrow> ProcessingJobData \<Rightarrow> (error + unit) \<times> state" where
  "addDocumentForProcessing e s data = processDocument e s data"

section \<open>Document controller: upload\<close>

text \<open>
  A JSON response: the HTTP status, the \<open>success\<close> flag, the \<open>message\<close> and \<open>error\<close>
  fields when present, and the data of the endpoint. The \<open>timestamp\<close> field is left out.
\<close>

record 'a response =
  status_code :: nat
  success :: bool
  message :: "string option"
  error_text :: "string option"
  payload :: "'a option"

definition failure :: "nat \<Rightarrow> string \<Rightarrow> 'a response" where
  "failure code msg = \<lparr> status_code = code, success = False, message = Some msg,
     error_text = None, payload = None \<rparr>"

definition error_message :: "error \<Rightarrow> string" where
  "error_message err =
     (case err of Error m \<Rightarrow> m | StoreUnavailable \<Rightarrow> ''store unavailable''
      | CheckViolation c \<Rightarrow> ''violates check constraint''
      | SyntaxError \<Rightarrow> ''Invalid regular expression'')"

definition server_error :: "string \<Rightarrow> error \<Rightarrow> 'a response" where
  "server_error msg err = \<lparr> status_code = 500, success = False, message = Some msg,
     error_text = Some (error_message err), payload = None \<rparr>"

text \<open>
  The upload request after multer and the authentication gate: the stored files, the body
  fields and the authenticated user.
\<close>

record UploadRequest =
  req_files :: "MulterFile list option"
  body_project_id :: "string option"
  body_department :: "string option"
  body_urgency_level :: "string option"
  upload_user :: User

record UploadedDocument =
  u_id :: int
  u_filename :: string
  u_original_filename :: string
  u_file_size :: nat
  u_mime_type :: string
  u_department :: string
  u_urgency_level :: string
  u_processing_status :: processing_status

definition documentData_of :: "UploadRequest \<Rightarrow> string \<Rightarrow> MulterFile \<Rightarrow> Document" where
  "documentData_of req dept file =
     \<lparr> doc_id = 0,
       filename = m_filename file,
       original_filename = originalname file,
       file_size = m_size file,
       mime_type = mimetype file,
       file_path = m_path file,
       file_hash = [],
       project_id = (case body_project_id req of
                       None \<Rightarrow> None
                     | Some v \<Rightarrow> if v = [] then None else parseInt v),
       department = dept,
       uploaded_by = user_id (upload_user req),
       urgency_level = (case body_urgency_level req of
                          None \<Rightarrow> ''routine''
                        | Some v \<Rightarrow> if v = [] then ''routine'' else v),
       doc_document_type = None,
       processing_status = Pending,
       ai_classification = None, classification_confidence = None, ai_summary = None,
       summary_confidence = None, ai_keywords = None, extracted_entities = None \<rparr>"

definition uploaded_entry :: "Document \<Rightarrow> UploadedDocument" where
  "uploaded_entry d =
     \<lparr> u_id = doc_id d, u_filename = filename d, u_original_filename = original_filename d,
       u_file_size = file_size d, u_mime_type = mime_type d, u_department = department d,
       u_urgency_level = urgency_level d, u_processing_status = processing_status d \<rparr>"

text \<open>
  The body of the \<open>for\<close> loop over the files: the \<open>catch\<close> of the loop logs the error
  and goes on, so a file either contributes an entry or nothing.
\<close>

definition upload_file ::
    "env \<Rightarrow> state \<Rightarrow> UploadRequest \<Rightarrow> string \<Rightarrow> MulterFile \<Rightarrow> UploadedDocument option \<times> state" where
  "upload_file e s req dept file =
     (case DocumentModel_create e s (documentData_of req dept file) of
        (Inl err, s1) \<Rightarrow> (None, s1)
      | (Inr document, s1) \<Rightarrow>
          (case addDocumentForProcessing e s1
                  \<lparr> job_documentId = doc_id document, job_filePath = m_path file,
                    job_userId = user_id (upload_user req), job_department = dept \<rparr> of
             (Inl err, s2) \<Rightarrow> (None, s2)
           | (Inr u, s2) \<Rightarrow> (Some (uploaded_entry document), s2)))"

fun upload_loop ::
    "env \<Rightarrow> UploadRequest \<Rightarrow> string \<Rightarrow> state \<Rightarrow> UploadedDocument list \<Rightarrow> MulterFile list
      \<Rightarrow> UploadedDocument list \<times> state" where
  "upload_loop e req dept s uploadedDocuments [] = (uploadedDocuments, s)"
| "upload_loop e req dept s uploadedDocuments (file # files) =
     (case upload_file e s req dept file of
        (None, s1) \<Rightarrow> upload_loop e req dept s1 uploadedDocuments files
      | (Some entry, s1) \<Rightarrow> upload_loop e req dept s1 (uploadedDocuments @ [entry]) files)"

definition uploadDocuments ::
    "env \<Rightarrow> state \<Rightarrow> UploadRequest \<Rightarrow> UploadedDocument list response \<times> state" where
  "uploadDocuments e s req =
     (case req_files req of
        None \<Rightarrow> (failure 400 ''No files uploaded'', s)
      | Some files \<Rightarrow>
          if files = [] then (failure 400 ''No files uploaded'', s)
          else (case body_department req of
                  None \<Rightarrow> (failure 400 ''Department is required'', s)
                | Some dept \<Rightarrow>
                    if dept = [] then (failure 400 ''Department is required'', s)
                    else (case upload_loop e req dept s [] files of
                            (uploadedDocuments, s1) \<Rightarrow>
                              (\<lparr> status_code = 201, success = True,
                                 message = Some (show_nat (length uploadedDocuments)
                                                 @ '' document(s) uploaded successfully''),
                                 error_text = None,
                                 payload = Some uploadedDocuments \<rparr>, s1))))"

text \<open>Every file of the batch fails: each one, handled in its turn, contributes no entry.\<close>

fun all_files_fail :: "env \<Rightarrow> UploadRequest \<Rightarrow> string \<Rightarrow> state \<Rightarrow> MulterFile list \<Rightarrow> bool" where
  "all_files_fail e req dept s [] = True"
| "all_files_fail e req dept s (file # files) =
     (fst (upload_file e s req dept file) = None
      \<and> all_files_fail e req dept (snd (upload_file e s req dept file)) files)"

section \<open>Store queries\<close>

text \<open>
  Modelled from the spec: the two query shapes of \<open>DocumentModel\<close> (section 4.2), which is
  not among the sources. The listing filters by department, project, urgency and status,
  orders newest first, cuts the page window and reports the total count of the matching rows
  independently of the window. The keyword search keeps the rows that the store's text
  predicate matches and that pass the filters, in the store's own order. Rows carry the ids
  issued by the sequence, so the newest row is the one with the greatest id. A page, a limit
  or a project id that is not a number, and a negative limit or offset, are rejected by the
  store.
\<close>

definition rows_newest_first :: "state \<Rightarrow> Document list" where
  "rows_newest_first s =
     concat (map (\<lambda>i. case db s i of None \<Rightarrow> [] | Some d \<Rightarrow> [d]) (rev [0 .. next_id s - 1]))"

definition status_name :: "processing_status \<Rightarrow> string" where
  "status_name st =
     (case st of Pending \<Rightarrow> ''pending'' | Processing \<Rightarrow> ''processing''
      | Completed \<Rightarrow> ''completed'' | Failed \<Rightarrow> ''failed'')"

record ListFilters =
  f_department :: "string option"
  f_project_id :: "int option option"
  f_urgency_level :: "string option"
  f_processing_status :: "string option"
  f_document_type :: "string option"

definition passes :: "'a option \<Rightarrow> 'a \<Rightarrow> bool" where
  "passes flt v = (case flt of None \<Rightarrow> True | Some w \<Rightarrow> v = w)"

definition matches_filters :: "ListFilters \<Rightarrow> Document \<Rightarrow> bool" where
  "matches_filters flt d =
     (passes (f_department flt) (department d)
      \<and> (case f_project_id flt of None \<Rightarrow> True | Some pid \<Rightarrow> project_id d = pid)
      \<and> passes (f_urgency_level flt) (urgency_level d)
      \<and> passes (f_processing_status flt) (status_name (processing_status d))
      \<and> (case f_document_type flt of None \<Rightarrow> True | Some t \<Rightarrow> doc_document_type d = Some t))"

definition page_window :: "int option \<Rightarrow> int option \<Rightarrow> 'a list \<Rightarrow> error + 'a list" where
  "page_window page limit xs =
     (case (page, limit) of
        (Some pg, Some lmt) \<Rightarrow>
          if lmt < 0 \<or> (pg - 1) * lmt < 0 then Inl (Error ''LIMIT and OFFSET must not be negative'')
          else Inr (take (nat lmt) (drop (nat ((pg - 1) * lmt)) xs))
      | _ \<Rightarrow> Inl (Error ''invalid input syntax for type integer''))"

record QueryResult =
  documents :: "Document list"
  total :: nat

definition run_query ::
    "env \<Rightarrow> state \<Rightarrow> (Document \<Rightarrow> bool) \<Rightarrow> ListFilters \<Rightarrow> int option \<Rightarrow> int option
      \<Rightarrow> (error + QueryResult) \<times> state" where
  "run_query e s keep flt page limit =
     (if store_fault e (store_calls s) then (Inl StoreUnavailable, tick s)
      else if f_project_id flt = Some None
      then (Inl (Error ''invalid input syntax for type integer''), tick s)
      else let hits = filter (\<lambda>d. keep d \<and> matches_filters flt d) (rows_newest_first s)
           in case page_window page limit hits of
                Inl err \<Rightarrow> (Inl err, tick s)
              | Inr window \<Rightarrow> (Inr \<lparr> documents = window, total = length hits \<rparr>, tick s))"

definition DocumentModel_getDocuments ::
    "env \<Rightarrow> state \<Rightarrow> ListFilters \<Rightarrow> int option \<Rightarrow> int option \<Rightarrow> (error + QueryResult) \<times> state" where
  "DocumentModel_getDocuments e s flt page limit = run_query e s (\<lambda>d. True) flt page limit"

definition DocumentModel_searchDocuments ::
    "env \<Rightarrow> state \<Rightarrow> string \<Rightarrow> ListFilters \<Rightarrow> int option \<Rightarrow> int option
      \<Rightarrow> (error + QueryResult) \<times> state" where
  "DocumentModel_searchDocuments e s query flt page limit =
     run_query e s (keyword_match e query) flt page limit"

section \<open>Document controller: reading\<close>

definition no_filters :: ListFilters where
  "no_filters = \<lparr> f_department = None, f_project_id = None, f_urgency_level = None,
     f_processing_status = None, f_document_type = None \<rparr>"

definition nonempty :: "string option \<Rightarrow> string option" where
  "nonempty v = (case v of None \<Rightarrow> None | Some x \<Rightarrow> if x = [] then None else Some x)"

text \<open>
  A numeric query parameter with the default of the destructuring: the default applies when
  the parameter is absent, and \<open>parseInt\<close> reads the string otherwise.
\<close>

definition int_param :: "string option \<Rightarrow> int \<Rightarrow> int option" where
  "int_param v dflt = (case v of None \<Rightarrow> Some dflt | Some x \<Rightarrow> parseInt x)"

definition department_scope :: "User \<Rightarrow> string option \<Rightarrow> string option" where
  "department_scope u requested =
     (if role u \<noteq> ''admin'' then Some (user_department u) else nonempty requested)"

record ListRequest =
  q_department :: "string option"
  q_project_id :: "string option"
  q_urgency_level :: "string option"
  q_status :: "string option"
  q_page :: "string option"
  q_limit :: "string option"
  list_user :: User

record ListPayload =
  l_documents :: "Document list"
  l_page :: "int option"
  l_limit :: "int option"
  l_total :: nat

definition list_filters :: "ListRequest \<Rightarrow> ListFilters" where
  "list_filters req =
     no_filters
       \<lparr> f_department := department_scope (list_user req) (q_department req),
         f_project_id := (case nonempty (q_project_id req) of
                            None \<Rightarrow> None | Some v \<Rightarrow> Some (parseInt v)),
         f_urgency_level := nonempty (q_urgency_level req),
         f_processing_status := nonempty (q_status req) \<rparr>"

definition getDocuments :: "env \<Rightarrow> state \<Rightarrow> ListRequest \<Rightarrow> ListPayload response \<times> state" where
  "getDocuments e s req =
     (let flt = list_filters req;
          page = int_param (q_page req) 1;
          limit = int_param (q_limit req) 20
      in case DocumentModel_getDocuments e s flt page limit of
           (Inl err, s1) \<Rightarrow> (server_error ''Failed to retrieve documents'' err, s1)
         | (Inr result, s1) \<Rightarrow>
             (\<lparr> status_code = 200, success = True, message = None, error_text = None,
                payload = Some \<lparr> l_documents = documents result, l_page = page,
                                 l_limit = limit, l_total = total result \<rparr> \<rparr>, s1))"

definition getDocumentById :: "env \<Rightarrow> state \<Rightarrow> string \<Rightarrow> User \<Rightarrow> Document response \<times> state" where
  "getDocumentById e s documentIdParam u =
     (if documentIdParam = [] then (failure 400 ''Document ID is required'', s)
      else case parseInt documentIdParam of
             None \<Rightarrow> (failure 400 ''Invalid document ID'', s)
           | Some documentId \<Rightarrow>
               (case DocumentModel_findById e s documentId of
                  (Inl err, s1) \<Rightarrow> (server_error ''Failed to retrieve document'' err, s1)
                | (Inr None, s1) \<Rightarrow> (failure 404 ''Document not found'', s1)
                | (Inr (Some document), s1) \<Rightarrow>
                    if role u \<noteq> ''admin'' \<and> department document \<noteq> user_department u
                    then (failure 403 ''Access denied - document not in your department'', s1)
                    else (\<lparr> status_code = 200, success = True, message = None,
                            error_text = None, payload = Some document \<rparr>, s1)))"

text \<open>
  The download either answers with a JSON error or streams the file with the two headers.
\<close>

datatype download_result =
    DownloadJson "unit response"
  | DownloadStream (content_type: string) (attachment_name: string) (body: bytes)

definition downloadDocument :: "env \<Rightarrow> state \<Rightarrow> string \<Rightarrow> User \<Rightarrow> download_result \<times> state" where
  "downloadDocument e s documentIdParam u =
     (if documentIdParam = [] then (DownloadJson (failure 400 ''Document ID is required''), s)
      else case parseInt documentIdParam of
             None \<Rightarrow> (DownloadJson (failure 400 ''Invalid document ID''), s)
           | Some documentId \<Rightarrow>
               (case DocumentModel_findById e s documentId of
                  (Inl err, s1) \<Rightarrow> (DownloadJson (server_error ''Failed to download document'' err), s1)
                | (Inr None, s1) \<Rightarrow> (DownloadJson (failure 404 ''Document not found''), s1)
                | (Inr (Some document), s1) \<Rightarrow>
                    if role u \<noteq> ''admin'' \<and> department document \<noteq> user_department u
                    then (DownloadJson
                            (failure 403 ''Access denied - document not in your department''), s1)
                    else (case fs s1 (file_path document) of
                            None \<Rightarrow> (DownloadJson (failure 404 ''File not found on disk''), s1)
                          | Some content \<Rightarrow>
                              (DownloadStream (mime_type document) (original_filename document)
                                 content, s1))))"

text \<open>
  The manual trigger \<open>POST /documents/:id/process\<close>: it classifies the file again and
  returns the result to the caller; it writes nothing to the store.
\<close>

definition DocumentController_processDocument ::
    "env \<Rightarrow> state \<Rightarrow> string \<Rightarrow> User \<Rightarrow> AIProcessingResult response \<times> state" where
  "DocumentController_processDocument e s documentIdParam u =
     (if documentIdParam = [] then (failure 400 ''Document ID is required'', s)
      else case parseInt documentIdParam of
             None \<Rightarrow> (failure 400 ''Invalid document ID'', s)
           | Some documentId \<Rightarrow>
               (case DocumentModel_findById e s documentId of
                  (Inl err, s1) \<Rightarrow> (server_error ''Failed to process document'' err, s1)
                | (Inr None, s1) \<Rightarrow> (failure 404 ''Document not found'', s1)
                | (Inr (Some document), s1) \<Rightarrow>
                    if role u \<noteq> ''admin'' \<and> department document \<noteq> user_department u
                    then (failure 403 ''Access denied - document not in your department'', s1)
                    else (case classifyDocument e s1 [] (file_path document) of
                            (aiResult, s2) \<Rightarrow>
                              (\<lparr> status_code = 200, success = True,
                                 message = Some ''Document processed successfully'',
                                 error_text = None, payload = Some aiResult \<rparr>, s2))))"

section \<open>Document controller: delete\<close>

text \<open>
  The log lines of \<open>deleteDocument\<close>, with their level. The function returns them next to
  the response and the state.
\<close>

datatype log_level = Info | Warn | ErrorLevel

type_synonym log_entry = "log_level \<times> string"

definition deleteDocument ::
    "env \<Rightarrow> state \<Rightarrow> string \<Rightarrow> User \<Rightarrow> unit response \<times> state \<times> log_entry list" where
  "deleteDocument e s documentIdParam u =
     (if documentIdParam = [] then (failure 400 ''Document ID is required'', s, [])
      else case parseInt documentIdParam of
             None \<Rightarrow> (failure 400 ''Invalid document ID'', s, [])
           | Some documentId \<Rightarrow>
               (case DocumentModel_findById e s documentId of
                  (Inl err, s1) \<Rightarrow>
                    (server_error ''Failed to delete document'' err, s1,
                     [(ErrorLevel, ''Failed to delete document:'')])
                | (Inr None, s1) \<Rightarrow> (failure 404 ''Document not found'', s1, [])
                | (Inr (Some document), s1) \<Rightarrow>
                    if role u \<noteq> ''admin'' \<and> uploaded_by document \<noteq> user_id u
                    then (failure 403 ''Access denied - you can only delete your own documents'',
                          s1, [])
                    else (let s2 = (if existsSync s1 (file_path document)
                                    then s1\<lparr> fs := (fs s1)(file_path document := None) \<rparr>
                                    else s1)
                          in case DocumentModel_deleteDocument e s2 documentId of
                               (Inl err, s3) \<Rightarrow>
                                 (server_error ''Failed to delete document'' err, s3,
                                  [(ErrorLevel, ''Failed to delete document:'')])
                             | (Inr ok, s3) \<Rightarrow>
                                 (\<lparr> status_code = 200, success = True,
                                    message = Some ''Document deleted successfully'',
                                    error_text = None, payload = None \<rparr>, s3,
                                  [(Info, ''Document deleted: '' @ original_filename document
                                          @ '' by user '' @ email u)]))))"

section \<open>Document controller: search\<close>

definition count_where :: "('a \<Rightarrow> bool) \<Rightarrow> 'a list \<Rightarrow> nat" where
  "count_where P xs = length (filter P xs)"

text \<open>
  \<open>calculateRelevanceScore\<close>: the four \<open>forEach\<close> passes of the source, each adding its
  weight once per match. A summary that is null or empty is falsy and skipped.
\<close>

definition calculateRelevanceScore :: "string \<Rightarrow> Document \<Rightarrow> nat" where
  "calculateRelevanceScore query document =
     (let queryWords = split_ws (toLowerCase query);
          fname = toLowerCase (original_filename document);
          score1 = 3 * count_where (\<lambda>w. str_includes fname w) queryWords;
          score2 = (case ai_summary document of
                      None \<Rightarrow> score1
                    | Some sm \<Rightarrow>
                        if sm = [] then score1
                        else score1 + 2 * count_where (\<lambda>w. str_includes (toLowerCase sm) w) queryWords);
          score3 = (case ai_keywords document of
                      None \<Rightarrow> score2
                    | Some kws \<Rightarrow>
                        score2 + 4 * sum_list (map (\<lambda>w. count_where
                                         (\<lambda>kw. str_includes (toLowerCase kw) w) kws) queryWords))
      in if str_includes (toLowerCase (department document)) (toLowerCase query)
         then score3 + 1 else score3)"

text \<open>
  The regular expression of \<open>extractSearchHighlights\<close> is \<open>\b\w*\<close>, the query word as it
  stands, \<open>\w*\b\<close>, with the flags \<open>gi\<close>. The word is not escaped, so its characters are
  read as pattern syntax. Three kinds of words are told apart.

  \<^item> A word without a syntax character is a literal, matched without regard to case; two code
    units below 256 are equal under the flag \<open>i\<close> exactly when their lower-case forms are.
    The matcher below follows the backtracking order of the engine: at a word boundary the
    first \<open>\w*\<close> takes as many word characters as it can and gives them back one by one,
    and so does the second.
  \<^item> A word without backslash and bracket in which a parenthesis has no partner, or that
    starts with \<open>*\<close> or \<open>+\<close>, or in which two of \<open>*\<close> and \<open>+\<close> stand side by side, is
    not a pattern: \<open>new RegExp\<close> throws a \<open>SyntaxError\<close>.
  \<^item> For every other word the answer of the engine is taken from the environment.
\<close>

definition is_word_char :: "char \<Rightarrow> bool" where
  "is_word_char c =
     (c \<in> set ''abcdefghijklmnopqrstuvwxyzABCDEFGHIJKLMNOPQRSTUVWXYZ0123456789_'')"

definition syntax_chars :: string where
  "syntax_chars = CHR 0x5C # ''^$.*+?()[]{}|''"

definition literal_word :: "string \<Rightarrow> bool" where
  "literal_word w = list_all (\<lambda>c. c \<notin> set syntax_chars) w"

fun unpaired :: "nat \<Rightarrow> string \<Rightarrow> bool" where
  "unpaired n [] = (0 < n)"
| "unpaired n (c # s) =
     (if c = CHR ''('' then unpaired (Suc n) s
      else if c = CHR '')'' then n = 0 \<or> unpaired (n - 1) s
      else unpaired n s)"

fun starts_with_quantifier :: "string \<Rightarrow> bool" where
  "starts_with_quantifier [] = False"
| "starts_with_quantifier (c # s) = (c \<in> set ''*+'')"

fun repeated_quantifier :: "string \<Rightarrow> bool" where
  "repeated_quantifier (a # b # s) =
     ((a \<in> set ''*+'' \<and> b \<in> set ''*+'') \<or> repeated_quantifier (b # s))"
| "repeated_quantifier s = False"

definition malformed :: "string \<Rightarrow> bool" where
  "malformed w =
     (CHR 0x5C \<notin> set w \<and> CHR ''['' \<notin> set w
      \<and> (unpaired 0 w \<or> starts_with_quantifier w \<or> repeated_quantifier w))"

text \<open>
  \<open>\b\<close>: the character before the position and the character at it differ in being word
  characters; \<open>prev\<close> tells whether the character before is one.
\<close>

definition boundary :: "bool \<Rightarrow> string \<Rightarrow> bool" where
  "boundary prev s = (prev \<noteq> (case s of [] \<Rightarrow> False | c # r \<Rightarrow> is_word_char c))"

text \<open>The word stands at the head of \<open>s\<close>, case ignored.\<close>

fun ci_prefix :: "string \<Rightarrow> string \<Rightarrow> bool" where
  "ci_prefix [] s = True"
| "ci_prefix (a # w) [] = False"
| "ci_prefix (a # w) (b # s) = (lower_char a = lower_char b \<and> ci_prefix w s)"

definition word_run :: "string \<Rightarrow> nat" where
  "word_run s = length (takeWhile is_word_char s)"

text \<open>
  The texts that a match starting at the head of \<open>s\<close> may have, in the order in which the
  engine tries them, and the first of them that ends at a word boundary.
\<close>

definition match_candidates :: "string \<Rightarrow> string \<Rightarrow> string list" where
  "match_candidates w s =
     concat (map (\<lambda>k. if ci_prefix w (drop k s)
                       then map (\<lambda>m. take (k + length w + m) s)
                              (rev [0 ..< Suc (word_run (drop (k + length w) s))])
                       else [])
               (rev [0 ..< Suc (word_run s)]))"

definition match_here :: "bool \<Rightarrow> string \<Rightarrow> string \<Rightarrow> string option" where
  "match_here prev s w =
     (if \<not> boundary prev s then None
      else find (\<lambda>t. boundary (if t = [] then prev else is_word_char (last t))
                          (drop (length t) s))
             (match_candidates w s))"

text \<open>
  \<open>summary.match(regex)\<close> with the flag \<open>g\<close>: all matches from left to right, the search
  going on behind a match, or one character further after an empty match.
\<close>

function match_all :: "bool \<Rightarrow> string \<Rightarrow> string \<Rightarrow> string list" where
  "match_all prev [] w = (case match_here prev [] w of None \<Rightarrow> [] | Some t \<Rightarrow> [t])"
| "match_all prev (c # s) w =
     (case match_here prev (c # s) w of
        None \<Rightarrow> match_all (is_word_char c) s w
      | Some t \<Rightarrow>
          if t = [] then t # match_all (is_word_char c) s w
          else t # match_all (is_word_char (last t)) (drop (length t) (c # s)) w)"
  by pat_completeness auto
termination
  by (relation "measure (\<lambda>(prev, s, w). length s)") auto

definition word_matches :: "env \<Rightarrow> string \<Rightarrow> string \<Rightarrow> error + string list" where
  "word_matches e word sm =
     (if literal_word word then Inr (match_all False sm word)
      else if malformed word then Inl SyntaxError
      else regex_match e word sm)"

text \<open>The context of a match: thirty characters to either side of its first occurrence.\<close>

definition highlight :: "string \<Rightarrow> string \<Rightarrow> string" where
  "highlight sm m =
     (let i = indexOf (toLowerCase sm) (toLowerCase m);
          contextStart = max 0 (i - 30);
          contextEnd = min (int (length sm)) (i + int (length m) + 30)
      in ''...'' @ substring sm contextStart contextEnd @ ''...'')"

fun word_highlights :: "env \<Rightarrow> string \<Rightarrow> string list \<Rightarrow> error + string list" where
  "word_highlights e sm [] = Inr []"
| "word_highlights e sm (word # queryWords) =
     (case word_matches e word sm of
        Inl err \<Rightarrow> Inl err
      | Inr matches \<Rightarrow>
          (case word_highlights e sm queryWords of
             Inl err \<Rightarrow> Inl err
           | Inr highlights \<Rightarrow> Inr (map (highlight sm) matches @ highlights)))"

definition extractSearchHighlights :: "env \<Rightarrow> string \<Rightarrow> Document \<Rightarrow> error + string list" where
  "extractSearchHighlights e query document =
     (let queryWords = split_ws (toLowerCase query)
      in case ai_summary document of
           None \<Rightarrow> Inr []
         | Some sm \<Rightarrow>
             if sm = [] then Inr []
             else (case word_highlights e sm queryWords of
                     Inl err \<Rightarrow> Inl err
                   | Inr highlights \<Rightarrow> Inr (take 3 highlights)))"

definition kmrlTerms :: "string list" where
  "kmrlTerms =
     [''safety protocol'', ''maintenance report'', ''engineering drawing'',
      ''vendor invoice'', ''board meeting'', ''track inspection'',
      ''electrical system'', ''rolling stock'', ''emergency procedure'',
      ''monsoon operations'', ''fire safety'', ''passenger safety'',
      ''procurement order'', ''budget allocation'', ''training manual'']"

definition generateSearchSuggestions :: "string \<Rightarrow> string list" where
  "generateSearchSuggestions query =
     (let queryLower = toLowerCase query
      in take 5 (filter (\<lambda>t.
                   let firstWord = takeWhile (\<lambda>c. c \<noteq> CHR '' '') t
                   in firstWord \<noteq> [] \<and> (str_includes t queryLower \<or> str_includes queryLower firstWord))
                 kmrlTerms))"

record SearchHit =
  hit_document :: Document
  relevance_score :: nat
  search_highlights :: "string list"

fun enhance :: "env \<Rightarrow> string \<Rightarrow> Document list \<Rightarrow> error + SearchHit list" where
  "enhance e query [] = Inr []"
| "enhance e query (doc # docs) =
     (case extractSearchHighlights e query doc of
        Inl err \<Rightarrow> Inl err
      | Inr highlights \<Rightarrow>
          (case enhance e query docs of
             Inl err \<Rightarrow> Inl err
           | Inr hits \<Rightarrow>
               Inr (\<lparr> hit_document = doc,
                      relevance_score = calculateRelevanceScore query doc,
                      search_highlights = highlights \<rparr> # hits)))"

text \<open>
  \<open>Array.prototype.sort\<close> is stable, and the comparator \<open>b.relevance_score -
  a.relevance_score\<close> orders by descending score: the result is the stable sort on the
  negated score.
\<close>

definition sort_by_relevance :: "SearchHit list \<Rightarrow> SearchHit list" where
  "sort_by_relevance hits = sort_key (\<lambda>h. - int (relevance_score h)) hits"

record SearchRequest =
  sq_q :: "string option"
  sq_department :: "string option"
  sq_document_type :: "string option"
  sq_urgency_level :: "string option"
  sq_limit :: "string option"
  sq_page :: "string option"
  search_user :: User

record SearchPayload =
  search_query :: string
  results_list :: "SearchHit list"
  total_found :: nat
  sp_page :: "int option"
  sp_limit :: "int option"
  has_more :: bool
  search_suggestions :: "string list"

definition search_filters :: "SearchRequest \<Rightarrow> ListFilters" where
  "search_filters req =
     no_filters
       \<lparr> f_department := department_scope (search_user req) (sq_department req),
         f_document_type := nonempty (sq_document_type req),
         f_urgency_level := nonempty (sq_urgency_level req) \<rparr>"

definition searchDocuments :: "env \<Rightarrow> state \<Rightarrow> SearchRequest \<Rightarrow> SearchPayload response \<times> state" where
  "searchDocuments e s req =
     (case sq_q req of
        None \<Rightarrow> (failure 400 ''Search query (q) is required'', s)
      | Some q \<Rightarrow>
          if trim q = [] then (failure 400 ''Search query (q) is required'', s)
          else
            (let searchQuery = trim q;
                 flt = search_filters req;
                 page = int_param (sq_page req) 1;
                 limit = int_param (sq_limit req) 20
             in case DocumentModel_searchDocuments e s searchQuery flt page limit of
                  (Inl err, s1) \<Rightarrow> (server_error ''Search failed'' err, s1)
                | (Inr searchResults, s1) \<Rightarrow>
                    (case enhance e searchQuery (documents searchResults) of
                       Inl err \<Rightarrow> (server_error ''Search failed'' err, s1)
                     | Inr enhancedResults \<Rightarrow>
                         (\<lparr> status_code = 200, success = True, message = None, error_text = None,
                            payload = Some
                              \<lparr> search_query = searchQuery,
                                results_list = sort_by_relevance enhancedResults,
                                total_found = total searchResults,
                                sp_page = page, sp_limit = limit,
                                has_more = (case (page, limit) of
                                              (Some pg, Some lmt) \<Rightarrow> int (total searchResults) > pg * lmt
                                            | _ \<Rightarrow> False),
                                search_suggestions = generateSearchSuggestions searchQuery \<rparr> \<rparr>,
                          s1))))"

section \<open>Example inputs\<close>

text \<open>
  Concrete users, files, environments and states at which the theorems below are
  instantiated. The stored name of a file is the one multer's \<open>filename\<close> callback makes:
  date, eight characters of a UUID, and the sanitised original name.
\<close>

definition safety_engineer :: User where
  "safety_engineer = \<lparr> user_id = 7, email = ''asha@kmrl.example'',
     user_department = ''SAFETY'', role = ''engineer'' \<rparr>"

definition finance_officer :: User where
  "finance_officer = \<lparr> user_id = 8, email = ''ravi@kmrl.example'',
     user_department = ''FINANCE'', role = ''finance_officer'' \<rparr>"

definition records_admin :: User where
  "records_admin = \<lparr> user_id = 1, email = ''admin@kmrl.example'',
     user_department = ''ADMINISTRATION'', role = ''admin'' \<rparr>"

definition notice_path :: string where
  "notice_path = ''uploads/documents/safety/2026-11-02_1a2b3c4d_safety_notice.pdf''"

definition notice_file :: MulterFile where
  "notice_file = \<lparr> m_filename = ''2026-11-02_1a2b3c4d_safety_notice.pdf'',
     originalname = ''safety_notice.pdf'', m_size = 3, mimetype = ''application/pdf'',
     m_path = notice_path \<rparr>"

definition blank_path :: string where
  "blank_path = ''uploads/documents/safety/2026-11-02_5e6f7a8b_blank.pdf''"

definition blank_file :: MulterFile where
  "blank_file = \<lparr> m_filename = ''2026-11-02_5e6f7a8b_blank.pdf'',
     originalname = ''blank.pdf'', m_size = 0, mimetype = ''application/pdf'',
     m_path = blank_path \<rparr>"

definition upload_of :: "MulterFile list \<Rightarrow> UploadRequest" where
  "upload_of files = \<lparr> req_files = Some files, body_project_id = None,
     body_department = Some ''SAFETY'', body_urgency_level = None,
     upload_user = safety_engineer \<rparr>"

text \<open>The external service is unreachable and the store works.\<close>

definition env_offline :: env where
  "env_offline = \<lparr> axios_post = (\<lambda>n. AxiosThrows), store_fault = (\<lambda>n. False),
     uploadDir = ''./uploads'', keyword_match = (\<lambda>q d. True),
     regex_match = (\<lambda>w sm. Inr []) \<rparr>"

text \<open>An empty documents table and a disk holding the two uploaded files.\<close>

definition fresh_state :: state where
  "fresh_state = \<lparr> fs = [notice_path \<mapsto> [37, 80, 68], blank_path \<mapsto> []],
     db = Map.empty, next_id = 1, net_calls = 0, store_calls = 0, status_writes = [] \<rparr>"

section \<open>Status histories\<close>

text \<open>
  The lifecycle as the specification words it: from pending forward to processing and on to
  completed or failed, the last two final, and never back to pending.
\<close>

fun forward_step :: "processing_status \<Rightarrow> processing_status \<Rightarrow> bool" where
  "forward_step Pending b = True"
| "forward_step Processing b = (b \<noteq> Pending)"
| "forward_step Completed b = (b = Completed)"
| "forward_step Failed b = (b = Failed)"

fun forward_only :: "processing_status list \<Rightarrow> bool" where
  "forward_only [] = True"
| "forward_only [a] = True"
| "forward_only (a # b # rest) = (forward_step a b \<and> forward_only (b # rest))"

text \<open>
  The external service answers the classification with a confidence of 0.9 and the summary
  with a confidence of 1.5; afterwards it is unreachable.
\<close>

definition classified_response :: response_data where
  "classified_response = \<lparr> data_success = True, data_category = Some ''safety&training'',
     data_document_type = None, data_classification = None, data_confidence = Some (9 / 10),
     data_summary = None, data_keywords = Some [''safety''], data_entities = None \<rparr>"

definition overconfident_summary :: response_data where
  "overconfident_summary = \<lparr> data_success = True, data_category = None,
     data_document_type = None, data_classification = None, data_confidence = Some (3 / 2),
     data_summary = Some ''Notice on platform safety.'', data_keywords = Some [''platform''],
     data_entities = None \<rparr>"

definition env_overconfident :: env where
  "env_overconfident = \<lparr> axios_post = (\<lambda>n. if n = 0 then AxiosResponse classified_response
                                             else if n = 1 then AxiosResponse overconfident_summary
                                             else AxiosThrows),
     store_fault = (\<lambda>n. False), uploadDir = ''./uploads'', keyword_match = (\<lambda>q d. True),
     regex_match = (\<lambda>w sm. Inr []) \<rparr>"

section \<open>Predicates on rows, states and histories\<close>

text \<open>Where the processing queue puts a file: the queue directory and the stored name.\<close>

definition queue_path :: "env \<Rightarrow> string \<Rightarrow> string" where
  "queue_path e p = path_join (path_join (uploadDir e) ''ml-queue'') (basename p)"

definition in_unit_interval :: "rat option \<Rightarrow> bool" where
  "in_unit_interval c = (case c of None \<Rightarrow> True | Some x \<Rightarrow> 0 \<le> x \<and> x \<le> 1)"

definition confidences_ok :: "Document \<Rightarrow> bool" where
  "confidences_ok d =
     (in_unit_interval (classification_confidence d) \<and> in_unit_interval (summary_confidence d))"

definition store_confidences_ok :: "state \<Rightarrow> bool" where
  "store_confidences_ok s = (\<forall>i d. db s i = Some d \<longrightarrow> confidences_ok d)"

text \<open>
  The states the application can be in: it starts with an empty documents table, every
  request handled by a modelled controller function takes it to the next state, and the disk
  may change behind its back.
\<close>

inductive reachable :: "env \<Rightarrow> state \<Rightarrow> bool" for e :: env where
  initial: "db s = Map.empty \<Longrightarrow> reachable e s"
| upload: "reachable e s \<Longrightarrow> reachable e (snd (uploadDocuments e s req))"
| listing: "reachable e s \<Longrightarrow> reachable e (snd (getDocuments e s lreq))"
| search: "reachable e s \<Longrightarrow> reachable e (snd (searchDocuments e s sreq))"
| fetch: "reachable e s \<Longrightarrow> reachable e (snd (getDocumentById e s idp u))"
| download: "reachable e s \<Longrightarrow> reachable e (snd (downloadDocument e s idp u))"
| reprocess: "reachable e s \<Longrightarrow> reachable e (snd (DocumentController_processDocument e s idp u))"
| delete: "reachable e s \<Longrightarrow> reachable e (fst (snd (deleteDocument e s idp u)))"
| disk: "reachable e s \<Longrightarrow> reachable e (s\<lparr> fs := files \<rparr>)"

text \<open>The state right after \<open>DocumentModel.create\<close> has inserted a row.\<close>

definition created :: "state \<Rightarrow> Document \<Rightarrow> state" where
  "created s dd = (tick s)\<lparr> db := (db s)(next_id s \<mapsto> dd\<lparr>doc_id := next_id s\<rparr>),
      next_id := next_id s + 1,
      status_writes := status_writes s @ [(next_id s, processing_status dd)] \<rparr>"

text \<open>A row whose processing has come to an end.\<close>

definition resolved :: "Document option \<Rightarrow> bool" where
  "resolved r = (case r of None \<Rightarrow> False | Some d \<Rightarrow> processing_status d = Completed \<or> processing_status d = Failed)"

text \<open>A file that is on disk with at least one byte.\<close>

definition on_disk_nonempty :: "state \<Rightarrow> string \<Rightarrow> bool" where
  "on_disk_nonempty s p = (case fs s p of None \<Rightarrow> False | Some b \<Rightarrow> b \<noteq> [])"

text \<open>
  A table with a completed document of the finance department, uploaded by the finance
  officer, and one of the safety department, uploaded by the safety engineer. The files of
  both rows are no longer on disk.
\<close>

definition invoice_row :: Document where
  "invoice_row = \<lparr> doc_id = 1, filename = ''2026-10-30_9c8d7e6f_invoice_77.pdf'',
     original_filename = ''invoice_77.pdf'', file_size = 2048, mime_type = ''application/pdf'',
     file_path = ''uploads/documents/finance/2026-10-30_9c8d7e6f_invoice_77.pdf'',
     file_hash = [], project_id = None, department = ''FINANCE'', uploaded_by = 8,
     urgency_level = ''routine'', doc_document_type = None, processing_status = Completed,
     ai_classification = Some ''finance&procurement'',
     classification_confidence = Some (17 / 20),
     ai_summary = Some ''Document summary for 2026-10-30_9c8d7e6f_invoice_77.pdf'',
     summary_confidence = Some (3 / 5),
     ai_keywords = Some [''document'', ''file'', ''2026-10-30_9c8d7e6f_invoice_77''],
     extracted_entities = Some [] \<rparr>"

definition drill_row :: Document where
  "drill_row = \<lparr> doc_id = 2, filename = ''2026-10-31_0a1b2c3d_fire_drill.pdf'',
     original_filename = ''fire_drill.pdf'', file_size = 512, mime_type = ''application/pdf'',
     file_path = ''uploads/documents/safety/2026-10-31_0a1b2c3d_fire_drill.pdf'',
     file_hash = [], project_id = None, department = ''SAFETY'', uploaded_by = 7,
     urgency_level = ''urgent'', doc_document_type = None, processing_status = Completed,
     ai_classification = Some ''general communication'',
     classification_confidence = Some (3 / 5),
     ai_summary = Some ''Fire (and smoke) drill plan for all stations'',
     summary_confidence = Some (4 / 5),
     ai_keywords = Some [''fire'', ''drill'', ''Fire safety''],
     extracted_entities = Some [] \<rparr>"

definition archive_state :: state where
  "archive_state = \<lparr> fs = [notice_path \<mapsto> [37, 80, 68], blank_path \<mapsto> []],
     db = [1 \<mapsto> invoice_row, 2 \<mapsto> drill_row], next_id = 3, net_calls = 0,
     store_calls = 0,
     status_writes = [(1, Pending), (1, Processing), (1, Completed),
                      (2, Pending), (2, Processing), (2, Completed)] \<rparr>"

text \<open>
  The characters of the prefix that multer puts before the sanitised original name: the
  digits and hyphens of the date, the hexadecimal digits of the UUID, and the underscores
  between the parts.
\<close>

definition stamp_chars :: string where
  "stamp_chars = ''0123456789abcdef-_''"

text \<open>A listing and a search without optional parameters.\<close>

definition list_everything :: "User \<Rightarrow> ListRequest" where
  "list_everything u = \<lparr> q_department = None, q_project_id = None, q_urgency_level = None,
     q_status = None, q_page = None, q_limit = None, list_user = u \<rparr>"

definition search_for :: "string \<Rightarrow> User \<Rightarrow> SearchRequest" where
  "search_for q u = \<lparr> sq_q = Some q, sq_department = None, sq_document_type = None,
     sq_urgency_level = None, sq_limit = None, sq_page = None, search_user = u \<rparr>"

section \<open>The relevance score as the specification words it\<close>

text \<open>
  The weighted sum of section 4.5 over the tokens of the query: 3 for every token that the
  file name contains, 2 for every token that the summary contains, 4 for every pair of a
  token and a stored keyword in which the keyword contains the token, and 1 when the
  department name contains the query. Matching ignores case.
\<close>

definition weighted_score :: "string \<Rightarrow> Document \<Rightarrow> nat" where
  "weighted_score query d =
     (let tokens = split_ws (toLowerCase query);
          summary_text = (case ai_summary d of None \<Rightarrow> [] | Some sm \<Rightarrow> sm);
          stored_keywords = (case ai_keywords d of None \<Rightarrow> [] | Some kws \<Rightarrow> kws)
      in 3 * length (filter (str_includes (toLowerCase (original_filename d))) tokens)
         + 2 * length (filter (str_includes (toLowerCase summary_text)) tokens)
         + 4 * length (filter (\<lambda>(w, kw). str_includes (toLowerCase kw) w)
                         (List.product tokens stored_keywords))
         + (if str_includes (toLowerCase (department d)) (toLowerCase query) then 1 else 0))"

section \<open>The pipeline, step by step\<close>

lemma dec_9_10: "decimal_5_4_checked (9 / 10) = Some (9 / 10)" by code_simp
lemma dec_17_20: "decimal_5_4_checked (17 / 20) = Some (17 / 20)" by code_simp
lemma dec_3_5: "decimal_5_4_checked (3 / 5) = Some (3 / 5)" by code_simp
lemma dec_4_5: "decimal_5_4_checked (4 / 5) = Some (4 / 5)" by code_simp
lemma dec_3_2: "decimal_5_4_checked (3 / 2) = None" by code_simp

lemma classify_state [simp]: "snd (classifyDocument e s t p) = net_tick s"
  by (simp add: classifyDocument_def split: axios_result.splits)

lemma summary_state [simp]: "snd (generateSummary e s p t) = net_tick s"
  by (simp add: generateSummary_def split: axios_result.splits option.splits)

lemmas store_unfold =
  DocumentModel_updateAIProcessingResults_def case_prod_beta tick_def net_tick_def no_results_def

lemma merge_status_only:
  "merge_results d (no_results\<lparr> r_processing_status := Some v \<rparr>) = Inr (d\<lparr> processing_status := v \<rparr>)"
  by (simp add: merge_results_def no_results_def checked_confidence_def or_else_def)

lemma merge_status_literal:
  "merge_results d \<lparr> r_processing_status = Some v, r_ai_classification = None,
     r_classification_confidence = None, r_ai_summary = None, r_summary_confidence = None,
     r_ai_keywords = None, r_extracted_entities = None \<rparr> = Inr (d\<lparr> processing_status := v \<rparr>)"
  by (simp add: merge_results_def checked_confidence_def or_else_def)

lemma merge_status:
  "merge_results d r = Inr d' \<Longrightarrow> processing_status d' = (case r_processing_status r of None \<Rightarrow> processing_status d | Some v \<Rightarrow> v)"
  by (auto simp: merge_results_def split: sum.splits)

subsection \<open>Frame\<close>

lemma update_frame:
  "next_id (snd (DocumentModel_updateAIProcessingResults e s i r)) = next_id s"
  "fs (snd (DocumentModel_updateAIProcessingResults e s i r)) = fs s"
  "j \<noteq> i \<Longrightarrow> db (snd (DocumentModel_updateAIProcessingResults e s i r)) j = db s j"
  by (auto simp: DocumentModel_updateAIProcessingResults_def tick_def split: option.splits sum.splits)

lemma try_frame:
  "next_id (snd (processDocument_try e s i p)) = next_id s"
  "fs (snd (processDocument_try e s i p)) = fs s"
  "j \<noteq> i \<Longrightarrow> db (snd (processDocument_try e s i p)) j = db s j"
  by (auto simp: processDocument_try_def store_unfold split: sum.splits option.splits)

lemma catch_frame:
  "next_id (snd (processDocument_catch e s i p)) = next_id s"
  "fs (snd (processDocument_catch e s i p)) = fs s"
  "j \<noteq> i \<Longrightarrow> db (snd (processDocument_catch e s i p)) j = db s j"
  by (auto simp: processDocument_catch_def store_unfold split: sum.splits option.splits)

lemma prepare_frame:
  "next_id (snd (prepareDocumentForMLProcessing e s p)) = next_id s"
  "db (snd (prepareDocumentForMLProcessing e s p)) = db s"
  "store_calls (snd (prepareDocumentForMLProcessing e s p)) = store_calls s"
  by (auto simp: prepareDocumentForMLProcessing_def moveToProcessingQueue_def Let_def
      split: sum.splits option.splits)

lemma prepare_fs:
  "fs (snd (prepareDocumentForMLProcessing e s p)) =
     (if on_disk_nonempty s p
      then ((fs s)(p := None))(queue_path e p := fs s p) else fs s)"
  by (auto simp: prepareDocumentForMLProcessing_def moveToProcessingQueue_def Let_def
        validateDocument_def existsSync_def extractMetadata_def generateFileHash_def
        on_disk_nonempty_def queue_path_def
      split: sum.splits option.splits)

lemma prepare_ok:
  "(\<exists>t. fst (prepareDocumentForMLProcessing e s p) = Inr t) = on_disk_nonempty s p"
  by (auto simp: prepareDocumentForMLProcessing_def moveToProcessingQueue_def Let_def
        validateDocument_def existsSync_def extractMetadata_def generateFileHash_def
        on_disk_nonempty_def
      split: sum.splits option.splits)

lemma process_shape:
  "snd (processDocument e s data) =
     (let i = job_documentId data; p = job_filePath data;
          s1 = snd (prepareDocumentForMLProcessing e s p);
          s2 = snd (processDocument_try e s1 i p)
      in if \<not> on_disk_nonempty s p then s
         else case fst (processDocument_try e s1 i p) of
                Inr u \<Rightarrow> s2
              | Inl err \<Rightarrow> snd (processDocument_catch e s2 i p))"
proof (cases "on_disk_nonempty s (job_filePath data)")
  case True
  then obtain t where "fst (prepareDocumentForMLProcessing e s (job_filePath data)) = Inr t"
    using prepare_ok by blast
  moreover from True have "existsSync s (job_filePath data)"
    by (auto simp: on_disk_nonempty_def existsSync_def split: option.splits)
  ultimately show ?thesis using True
    by (auto simp: processDocument_def Let_def case_prod_beta generateFileHash_def
          extractMetadata_def existsSync_def split: sum.splits option.splits)
next
  case False
  then have "\<forall>t. fst (prepareDocumentForMLProcessing e s (job_filePath data)) \<noteq> Inr t"
    using prepare_ok by blast
  moreover have "snd (prepareDocumentForMLProcessing e s (job_filePath data)) = s"
    using False
    by (auto simp: prepareDocumentForMLProcessing_def moveToProcessingQueue_def Let_def
          validateDocument_def existsSync_def on_disk_nonempty_def split: sum.splits option.splits)
  ultimately show ?thesis using False
    by (auto simp: processDocument_def Let_def case_prod_beta split: sum.splits)
qed

lemma process_frame:
  "next_id (snd (processDocument e s data)) = next_id s"
  "j \<noteq> job_documentId data \<Longrightarrow> db (snd (processDocument e s data)) j = db s j"
  "fs (snd (processDocument e s data)) =
     (if on_disk_nonempty s (job_filePath data)
      then ((fs s)(job_filePath data := None))(queue_path e (job_filePath data) := fs s (job_filePath data))
      else fs s)"
  by (auto simp: process_shape Let_def try_frame catch_frame prepare_frame prepare_fs
      split: sum.splits)

subsection \<open>Outcome when the store works\<close>

lemma try_status:
  assumes "\<forall>n. \<not> store_fault e n" and "db s i = Some d"
  shows "case fst (processDocument_try e s i p) of
           Inr u \<Rightarrow> resolved (db (snd (processDocument_try e s i p)) i)
         | Inl err \<Rightarrow> db (snd (processDocument_try e s i p)) i \<noteq> None"
  using assms
  by (auto simp: processDocument_try_def store_unfold merge_status_literal resolved_def
      dest: merge_status split: sum.splits option.splits)

lemma catch_status:
  assumes "\<forall>n. \<not> store_fault e n" and "db s i = Some d"
  shows "resolved (db (snd (processDocument_catch e s i p)) i)"
  using assms
  by (auto simp: processDocument_catch_def store_unfold merge_status_literal resolved_def
      dest: merge_status split: sum.splits option.splits)

lemma process_status:
  assumes "\<forall>n. \<not> store_fault e n" and "db s (job_documentId data) = Some d"
      and "on_disk_nonempty s (job_filePath data)"
  shows "resolved (db (snd (processDocument e s data)) (job_documentId data))"
proof -
  let ?i = "job_documentId data" and ?p = "job_filePath data"
  let ?s1 = "snd (prepareDocumentForMLProcessing e s ?p)"
  let ?s2 = "snd (processDocument_try e ?s1 ?i ?p)"
  have d1: "db ?s1 ?i = Some d" using assms(2) by (simp add: prepare_frame)
  show ?thesis
  proof (cases "fst (processDocument_try e ?s1 ?i ?p)")
    case (Inl err)
    with try_status [OF assms(1) d1, of ?p] obtain d2 where "db ?s2 ?i = Some d2" by auto
    from catch_status [OF assms(1) this, of ?p] Inl assms(3) show ?thesis
      by (simp add: process_shape Let_def)
  next
    case (Inr u)
    with try_status [OF assms(1) d1, of ?p] assms(3) show ?thesis
      by (simp add: process_shape Let_def)
  qed
qed


subsection \<open>The upload loop\<close>

lemma upload_loop_acc:
  "upload_loop e req dept s acc files =
     (acc @ fst (upload_loop e req dept s [] files), snd (upload_loop e req dept s [] files))"
proof (induction files arbitrary: s acc)
  case Nil
  then show ?case by simp
next
  case (Cons f files)
  show ?case
  proof (cases "upload_file e s req dept f")
    case (Pair r s1)
    show ?thesis
    proof (cases r)
      case None
      with Pair Cons.IH [of s1 acc] Cons.IH [of s1 "[]"] show ?thesis by simp
    next
      case (Some entry)
      with Pair Cons.IH [of s1 "acc @ [entry]"] Cons.IH [of s1 "[entry]"] show ?thesis by simp
    qed
  qed
qed

lemma upload_loop_all_fail:
  "all_files_fail e req dept s files \<Longrightarrow> fst (upload_loop e req dept s acc files) = acc"
proof (induction files arbitrary: s)
  case Nil
  then show ?case by simp
next
  case (Cons f files)
  then show ?case by (cases "upload_file e s req dept f") auto
qed

lemma upload_loop_length:
  "length (fst (upload_loop e req dept s acc files)) \<le> length acc + length files"
proof (induction files arbitrary: s acc)
  case Nil
  then show ?case by simp
next
  case (Cons f files)
  show ?case
  proof (cases "upload_file e s req dept f")
    case (Pair r s1)
    then show ?thesis
      using Cons.IH [of s1 acc] Cons.IH [of s1 "acc @ [the r]"] by (cases r) auto
  qed
qed

lemma show_nat_0: "show_nat 0 = ''0''"
  by (simp add: show_nat_def digits_of.simps)

lemmas upload_file_eval =
  upload_file_def DocumentModel_create_def tick_def documentData_of_def
  addDocumentForProcessing_def processDocument_def existsSync_def generateFileHash_def
  extractMetadata_def prepareDocumentForMLProcessing_def validateDocument_def

subsection \<open>One file, then the batch\<close>

lemma upload_file_state:
  "snd (upload_file e s req dept f) =
     (if store_fault e (store_calls s) then tick s
      else snd (processDocument e (created s (documentData_of req dept f))
                  \<lparr> job_documentId = next_id s, job_filePath = m_path f,
                    job_userId = user_id (upload_user req), job_department = dept \<rparr>))"
  by (auto simp: upload_file_def DocumentModel_create_def addDocumentForProcessing_def Let_def
        created_def case_prod_beta split: sum.splits)

lemma upload_file_frame:
  "next_id s \<le> next_id (snd (upload_file e s req dept f))"
  "j < next_id s \<Longrightarrow> db (snd (upload_file e s req dept f)) j = db s j"
  by (auto simp: upload_file_state process_frame created_def tick_def)

lemma upload_file_fs:
  "fs (snd (upload_file e s req dept f)) = fs s
   \<or> on_disk_nonempty s (m_path f)
     \<and> fs (snd (upload_file e s req dept f))
         = ((fs s)(m_path f := None))(queue_path e (m_path f) := fs s (m_path f))"
  by (auto simp: upload_file_state process_frame created_def tick_def on_disk_nonempty_def)

lemma upload_file_works:
  assumes "\<forall>n. \<not> store_fault e n"
  shows "next_id (snd (upload_file e s req dept f)) = next_id s + 1"
    and "fs (snd (upload_file e s req dept f)) =
           (if on_disk_nonempty s (m_path f)
            then ((fs s)(m_path f := None))(queue_path e (m_path f) := fs s (m_path f))
            else fs s)"
    and "on_disk_nonempty s (m_path f) \<Longrightarrow> resolved (db (snd (upload_file e s req dept f)) (next_id s))"
proof -
  let ?s1 = "created s (documentData_of req dept f)"
  let ?job = "\<lparr> job_documentId = next_id s, job_filePath = m_path f,
                 job_userId = user_id (upload_user req), job_department = dept \<rparr>"
  have st: "snd (upload_file e s req dept f) = snd (processDocument e ?s1 ?job)"
    using assms by (simp add: upload_file_state)
  show "next_id (snd (upload_file e s req dept f)) = next_id s + 1"
    by (simp add: st process_frame created_def tick_def)
  have disk: "on_disk_nonempty ?s1 (m_path f) = on_disk_nonempty s (m_path f)"
    by (simp add: on_disk_nonempty_def created_def tick_def)
  show "fs (snd (upload_file e s req dept f)) =
           (if on_disk_nonempty s (m_path f)
            then ((fs s)(m_path f := None))(queue_path e (m_path f) := fs s (m_path f))
            else fs s)"
    by (simp add: st process_frame disk) (simp add: created_def tick_def)
  assume ok: "on_disk_nonempty s (m_path f)"
  have row: "db ?s1 (job_documentId ?job) = Some ((documentData_of req dept f)\<lparr>doc_id := next_id s\<rparr>)"
    by (simp add: created_def tick_def)
  from process_status [OF assms row] ok disk
  show "resolved (db (snd (upload_file e s req dept f)) (next_id s))"
    by (simp add: st)
qed

lemma upload_loop_state:
  "snd (upload_loop e req dept s acc files)
     = foldl (\<lambda>s f. snd (upload_file e s req dept f)) s files"
proof (induction files arbitrary: s acc)
  case Nil
  then show ?case by simp
next
  case (Cons f files)
  then show ?case by (cases "upload_file e s req dept f") (auto split: option.splits)
qed

lemma fold_frame:
  "next_id s \<le> next_id (foldl (\<lambda>s f. snd (upload_file e s req dept f)) s files)
   \<and> (\<forall>j < next_id s. db (foldl (\<lambda>s f. snd (upload_file e s req dept f)) s files) j = db s j)"
proof (induction files arbitrary: s)
  case Nil
  then show ?case by simp
next
  case (Cons f files)
  let ?s1 = "snd (upload_file e s req dept f)"
  have m: "next_id s \<le> next_id ?s1" by (rule upload_file_frame)
  have k: "\<And>j. j < next_id s \<Longrightarrow> db ?s1 j = db s j" by (rule upload_file_frame)
  from Cons.IH [of ?s1] m k show ?case by force
qed

lemma fold_resolves:
  assumes "\<forall>n. \<not> store_fault e n"
      and "distinct (map m_path files)"
      and "\<forall>f \<in> set files. on_disk_nonempty s (m_path f)"
  shows "next_id (foldl (\<lambda>s f. snd (upload_file e s req dept f)) s files)
           = next_id s + int (length files)
       \<and> (\<forall>i. next_id s \<le> i \<and> i < next_id s + int (length files)
              \<longrightarrow> resolved (db (foldl (\<lambda>s f. snd (upload_file e s req dept f)) s files) i))"
  using assms(2,3)
proof (induction files arbitrary: s)
  case Nil
  then show ?case by auto
next
  case (Cons f files)
  let ?s1 = "snd (upload_file e s req dept f)"
  let ?end = "foldl (\<lambda>s f. snd (upload_file e s req dept f)) ?s1 files"
  have f_ok: "on_disk_nonempty s (m_path f)" using Cons.prems by simp
  have n1: "next_id ?s1 = next_id s + 1" by (rule upload_file_works [OF assms(1)])
  have fs1: "fs ?s1 = ((fs s)(m_path f := None))(queue_path e (m_path f) := fs s (m_path f))"
    using upload_file_works(2) [OF assms(1), of s req dept f] f_ok by simp
  have r1: "resolved (db ?s1 (next_id s))" by (rule upload_file_works(3) [OF assms(1) f_ok])
  have rest: "\<forall>g \<in> set files. on_disk_nonempty ?s1 (m_path g)"
  proof
    fix g assume g: "g \<in> set files"
    then have "m_path g \<in> m_path ` set files" by simp
    then have "m_path g \<noteq> m_path f" using Cons.prems(1) by auto
    moreover have "on_disk_nonempty s (m_path g)" using Cons.prems(2) g by simp
    ultimately show "on_disk_nonempty ?s1 (m_path g)"
      using f_ok by (auto simp: on_disk_nonempty_def fs1 split: option.splits)
  qed
  from Cons.IH [OF _ rest] Cons.prems(1)
  have ih: "next_id ?end = next_id ?s1 + int (length files)"
    "\<forall>i. next_id ?s1 \<le> i \<and> i < next_id ?s1 + int (length files) \<longrightarrow> resolved (db ?end i)"
    by auto
  have "db ?end (next_id s) = db ?s1 (next_id s)"
    using fold_frame [of ?s1 e req dept files] n1 by simp
  with r1 have first: "resolved (db ?end (next_id s))" by simp
  show ?case
  proof (intro conjI allI impI)
    show "next_id (foldl (\<lambda>s f. snd (upload_file e s req dept f)) s (f # files))
            = next_id s + int (length (f # files))"
      using ih(1) n1 by simp
  next
    fix i assume "next_id s \<le> i \<and> i < next_id s + int (length (f # files))"
    then consider "i = next_id s" | "next_id ?s1 \<le> i \<and> i < next_id ?s1 + int (length files)"
      using n1 by fastforce
    then show "resolved (db (foldl (\<lambda>s f. snd (upload_file e s req dept f)) s (f # files)) i)"
      using first ih(2) by cases auto
  qed
qed

lemma uploadDocuments_state:
  assumes "req_files req = Some files" and "files \<noteq> []"
      and "body_department req = Some dept" and "dept \<noteq> []"
  shows "snd (uploadDocuments e s req) = foldl (\<lambda>s f. snd (upload_file e s req dept f)) s files"
  using assms upload_loop_state [of e req dept s "[]" files]
  by (simp add: uploadDocuments_def case_prod_beta)

lemma uploadDocuments_state_cases:
  "snd (uploadDocuments e s req) = s
   \<or> (\<exists>files dept. snd (uploadDocuments e s req)
         = foldl (\<lambda>s f. snd (upload_file e s req dept f)) s files)"
  using upload_loop_state [of e req _ s "[]"]
  by (auto simp: uploadDocuments_def case_prod_beta split: option.splits)

subsection \<open>Status histories\<close>

lemma try_writes:
  "(case fst (processDocument_try e s i p) of
      Inr u \<Rightarrow> status_writes (snd (processDocument_try e s i p)) = status_writes s
             \<or> status_writes (snd (processDocument_try e s i p))
                 = status_writes s @ [(i, Processing), (i, Completed)]
    | Inl err \<Rightarrow> status_writes (snd (processDocument_try e s i p)) = status_writes s
               \<or> status_writes (snd (processDocument_try e s i p))
                   = status_writes s @ [(i, Processing)])"
  by (auto simp: processDocument_try_def store_unfold split: sum.splits option.splits if_splits)

lemma catch_writes:
  "status_writes (snd (processDocument_catch e s i p)) = status_writes s
   \<or> status_writes (snd (processDocument_catch e s i p)) = status_writes s @ [(i, Failed)]
   \<or> status_writes (snd (processDocument_catch e s i p))
        = status_writes s @ [(i, Failed), (i, Completed)]"
  by (auto simp: processDocument_catch_def store_unfold split: sum.splits option.splits if_splits)

lemma prepare_writes [simp]:
  "status_writes (snd (prepareDocumentForMLProcessing e s p)) = status_writes s"
  by (simp add: prepareDocumentForMLProcessing_def moveToProcessingQueue_def Let_def
      split: sum.splits option.splits)

lemma process_writes:
  "\<exists>tr. status_writes (snd (processDocument e s data))
           = status_writes s @ map (Pair (job_documentId data)) tr
      \<and> subseq tr [Processing, Failed, Completed]"
proof -
  let ?i = "job_documentId data" and ?p = "job_filePath data"
  let ?s1 = "snd (prepareDocumentForMLProcessing e s ?p)"
  let ?s2 = "snd (processDocument_try e ?s1 ?i ?p)"
  have shape: "snd (processDocument e s data) = s
      \<or> snd (processDocument e s data) = ?s1
      \<or> (\<exists>u. fst (processDocument_try e ?s1 ?i ?p) = Inr u) \<and> snd (processDocument e s data) = ?s2
      \<or> (\<exists>err. fst (processDocument_try e ?s1 ?i ?p) = Inl err)
          \<and> snd (processDocument e s data) = snd (processDocument_catch e ?s2 ?i ?p)"
    by (auto simp: processDocument_def Let_def case_prod_beta split: sum.splits)
  have w0: "status_writes s = status_writes s @ map (Pair ?i) []" by simp
  from shape consider (a) "snd (processDocument e s data) = s"
    | (b) "snd (processDocument e s data) = ?s1"
    | (c) u where "fst (processDocument_try e ?s1 ?i ?p) = Inr u" "snd (processDocument e s data) = ?s2"
    | (d) err where "fst (processDocument_try e ?s1 ?i ?p) = Inl err"
        "snd (processDocument e s data) = snd (processDocument_catch e ?s2 ?i ?p)"
    by blast
  then show ?thesis
  proof cases
    case a
    then show ?thesis using w0 by (intro exI [of _ "[]"]) simp
  next
    case b
    then show ?thesis by (intro exI [of _ "[]"]) simp
  next
    case c
    from try_writes [of e ?s1 ?i ?p] c(1)
    have "status_writes ?s2 = status_writes s
        \<or> status_writes ?s2 = status_writes s @ [(?i, Processing), (?i, Completed)]"
      by simp
    then show ?thesis
    proof
      assume "status_writes ?s2 = status_writes s"
      with c(2) show ?thesis by (intro exI [of _ "[]"]) simp
    next
      assume "status_writes ?s2 = status_writes s @ [(?i, Processing), (?i, Completed)]"
      with c(2) show ?thesis by (intro exI [of _ "[Processing, Completed]"]) simp
    qed
  next
    case d
    from try_writes [of e ?s1 ?i ?p] d(1)
    have t: "status_writes ?s2 = status_writes s
        \<or> status_writes ?s2 = status_writes s @ [(?i, Processing)]"
      by simp
    let ?s3 = "snd (processDocument_catch e ?s2 ?i ?p)"
    from catch_writes [of e ?s2 ?i ?p]
    have k: "status_writes ?s3 = status_writes ?s2
        \<or> status_writes ?s3 = status_writes ?s2 @ [(?i, Failed)]
        \<or> status_writes ?s3 = status_writes ?s2 @ [(?i, Failed), (?i, Completed)]" .
    from t k d(2) consider
        "status_writes (snd (processDocument e s data)) = status_writes s @ map (Pair ?i) []"
      | "status_writes (snd (processDocument e s data)) = status_writes s @ map (Pair ?i) [Failed]"
      | "status_writes (snd (processDocument e s data)) = status_writes s @ map (Pair ?i) [Failed, Completed]"
      | "status_writes (snd (processDocument e s data)) = status_writes s @ map (Pair ?i) [Processing]"
      | "status_writes (snd (processDocument e s data)) = status_writes s @ map (Pair ?i) [Processing, Failed]"
      | "status_writes (snd (processDocument e s data)) = status_writes s @ map (Pair ?i) [Processing, Failed, Completed]"
      by auto
    then show ?thesis
    proof cases
      case 1 then show ?thesis by (intro exI [of _ "[]"]) simp
    next
      case 2 then show ?thesis by (intro exI [of _ "[Failed]"]) simp
    next
      case 3 then show ?thesis by (intro exI [of _ "[Failed, Completed]"]) simp
    next
      case 4 then show ?thesis by (intro exI [of _ "[Processing]"]) simp
    next
      case 5 then show ?thesis by (intro exI [of _ "[Processing, Failed]"]) simp
    next
      case 6 then show ?thesis by (intro exI [of _ "[Processing, Failed, Completed]"]) simp
    qed
  qed
qed

lemma findById_writes [simp]:
  "status_writes (snd (DocumentModel_findById e s i)) = status_writes s"
  by (simp add: DocumentModel_findById_def tick_def)

lemma manual_writes:
  "status_writes (snd (DocumentController_processDocument e s idp u)) = status_writes s"
  by (auto simp: DocumentController_processDocument_def DocumentModel_findById_def tick_def
        net_tick_def case_prod_beta split: option.splits sum.splits)

subsection \<open>Lower case by table\<close>

lemma lower_char_table:
  "lower_char c =
     (case map_of
       [(CHR ''A'', CHR ''a''), (CHR ''B'', CHR ''b''), (CHR ''C'', CHR ''c''), (CHR ''D'', CHR ''d''),
        (CHR ''E'', CHR ''e''), (CHR ''F'', CHR ''f''), (CHR ''G'', CHR ''g''), (CHR ''H'', CHR ''h''),
        (CHR ''I'', CHR ''i''), (CHR ''J'', CHR ''j''), (CHR ''K'', CHR ''k''), (CHR ''L'', CHR ''l''),
        (CHR ''M'', CHR ''m''), (CHR ''N'', CHR ''n''), (CHR ''O'', CHR ''o''), (CHR ''P'', CHR ''p''),
        (CHR ''Q'', CHR ''q''), (CHR ''R'', CHR ''r''), (CHR ''S'', CHR ''s''), (CHR ''T'', CHR ''t''),
        (CHR ''U'', CHR ''u''), (CHR ''V'', CHR ''v''), (CHR ''W'', CHR ''w''), (CHR ''X'', CHR ''x''),
        (CHR ''Y'', CHR ''y''), (CHR ''Z'', CHR ''z''), (CHR 0xC0, CHR 0xE0), (CHR 0xC1, CHR 0xE1),
        (CHR 0xC2, CHR 0xE2), (CHR 0xC3, CHR 0xE3), (CHR 0xC4, CHR 0xE4), (CHR 0xC5, CHR 0xE5),
        (CHR 0xC6, CHR 0xE6), (CHR 0xC7, CHR 0xE7), (CHR 0xC8, CHR 0xE8), (CHR 0xC9, CHR 0xE9),
        (CHR 0xCA, CHR 0xEA), (CHR 0xCB, CHR 0xEB), (CHR 0xCC, CHR 0xEC), (CHR 0xCD, CHR 0xED),
        (CHR 0xCE, CHR 0xEE), (CHR 0xCF, CHR 0xEF), (CHR 0xD0, CHR 0xF0), (CHR 0xD1, CHR 0xF1),
        (CHR 0xD2, CHR 0xF2), (CHR 0xD3, CHR 0xF3), (CHR 0xD4, CHR 0xF4), (CHR 0xD5, CHR 0xF5),
        (CHR 0xD6, CHR 0xF6), (CHR 0xD8, CHR 0xF8), (CHR 0xD9, CHR 0xF9), (CHR 0xDA, CHR 0xFA),
        (CHR 0xDB, CHR 0xFB), (CHR 0xDC, CHR 0xFC), (CHR 0xDD, CHR 0xFD), (CHR 0xDE, CHR 0xFE)] c of
        None \<Rightarrow> c
      | Some d \<Rightarrow> d)"
  by (simp add: lower_char_def upper_letters_def lower_letters_def)

text \<open>The lower-case forms of the printable ASCII characters, one rewrite rule each.\<close>

lemma lower_char_ascii:
  "lower_char (CHR 0x20) = CHR 0x20" "lower_char (CHR 0x21) = CHR 0x21"
  "lower_char (CHR 0x22) = CHR 0x22" "lower_char (CHR 0x23) = CHR 0x23"
  "lower_char (CHR 0x24) = CHR 0x24" "lower_char (CHR 0x25) = CHR 0x25"
  "lower_char (CHR 0x26) = CHR 0x26" "lower_char (CHR 0x27) = CHR 0x27"
  "lower_char (CHR 0x28) = CHR 0x28" "lower_char (CHR 0x29) = CHR 0x29"
  "lower_char (CHR 0x2A) = CHR 0x2A" "lower_char (CHR 0x2B) = CHR 0x2B"
  "lower_char (CHR 0x2C) = CHR 0x2C" "lower_char (CHR 0x2D) = CHR 0x2D"
  "lower_char (CHR 0x2E) = CHR 0x2E" "lower_char (CHR 0x2F) = CHR 0x2F"
  "lower_char (CHR ''0'') = CHR ''0''" "lower_char (CHR ''1'') = CHR ''1''"
  "lower_char (CHR ''2'') = CHR ''2''" "lower_char (CHR ''3'') = CHR ''3''"
  "lower_char (CHR ''4'') = CHR ''4''" "lower_char (CHR ''5'') = CHR ''5''"
  "lower_char (CHR ''6'') = CHR ''6''" "lower_char (CHR ''7'') = CHR ''7''"
  "lower_char (CHR ''8'') = CHR ''8''" "lower_char (CHR ''9'') = CHR ''9''"
  "lower_char (CHR 0x3A) = CHR 0x3A" "lower_char (CHR 0x3B) = CHR 0x3B"
  "lower_char (CHR 0x3C) = CHR 0x3C" "lower_char (CHR 0x3D) = CHR 0x3D"
  "lower_char (CHR 0x3E) = CHR 0x3E" "lower_char (CHR 0x3F) = CHR 0x3F"
  "lower_char (CHR 0x40) = CHR 0x40" "lower_char (CHR ''A'') = CHR ''a''"
  "lower_char (CHR ''B'') = CHR ''b''" "lower_char (CHR ''C'') = CHR ''c''"
  "lower_char (CHR ''D'') = CHR ''d''" "lower_char (CHR ''E'') = CHR ''e''"
  "lower_char (CHR ''F'') = CHR ''f''" "lower_char (CHR ''G'') = CHR ''g''"
  "lower_char (CHR ''H'') = CHR ''h''" "lower_char (CHR ''I'') = CHR ''i''"
  "lower_char (CHR ''J'') = CHR ''j''" "lower_char (CHR ''K'') = CHR ''k''"
  "lower_char (CHR ''L'') = CHR ''l''" "lower_char (CHR ''M'') = CHR ''m''"
  "lower_char (CHR ''N'') = CHR ''n''" "lower_char (CHR ''O'') = CHR ''o''"
  "lower_char (CHR ''P'') = CHR ''p''" "lower_char (CHR ''Q'') = CHR ''q''"
  "lower_char (CHR ''R'') = CHR ''r''" "lower_char (CHR ''S'') = CHR ''s''"
  "lower_char (CHR ''T'') = CHR ''t''" "lower_char (CHR ''U'') = CHR ''u''"
  "lower_char (CHR ''V'') = CHR ''v''" "lower_char (CHR ''W'') = CHR ''w''"
  "lower_char (CHR ''X'') = CHR ''x''" "lower_char (CHR ''Y'') = CHR ''y''"
  "lower_char (CHR ''Z'') = CHR ''z''" "lower_char (CHR 0x5B) = CHR 0x5B"
  "lower_char (CHR 0x5C) = CHR 0x5C" "lower_char (CHR 0x5D) = CHR 0x5D"
  "lower_char (CHR 0x5E) = CHR 0x5E" "lower_char (CHR 0x5F) = CHR 0x5F"
  "lower_char (CHR 0x60) = CHR 0x60" "lower_char (CHR ''a'') = CHR ''a''"
  "lower_char (CHR ''b'') = CHR ''b''" "lower_char (CHR ''c'') = CHR ''c''"
  "lower_char (CHR ''d'') = CHR ''d''" "lower_char (CHR ''e'') = CHR ''e''"
  "lower_char (CHR ''f'') = CHR ''f''" "lower_char (CHR ''g'') = CHR ''g''"
  "lower_char (CHR ''h'') = CHR ''h''" "lower_char (CHR ''i'') = CHR ''i''"
  "lower_char (CHR ''j'') = CHR ''j''" "lower_char (CHR ''k'') = CHR ''k''"
  "lower_char (CHR ''l'') = CHR ''l''" "lower_char (CHR ''m'') = CHR ''m''"
  "lower_char (CHR ''n'') = CHR ''n''" "lower_char (CHR ''o'') = CHR ''o''"
  "lower_char (CHR ''p'') = CHR ''p''" "lower_char (CHR ''q'') = CHR ''q''"
  "lower_char (CHR ''r'') = CHR ''r''" "lower_char (CHR ''s'') = CHR ''s''"
  "lower_char (CHR ''t'') = CHR ''t''" "lower_char (CHR ''u'') = CHR ''u''"
  "lower_char (CHR ''v'') = CHR ''v''" "lower_char (CHR ''w'') = CHR ''w''"
  "lower_char (CHR ''x'') = CHR ''x''" "lower_char (CHR ''y'') = CHR ''y''"
  "lower_char (CHR ''z'') = CHR ''z''" "lower_char (CHR 0x7B) = CHR 0x7B"
  "lower_char (CHR 0x7C) = CHR 0x7C" "lower_char (CHR 0x7D) = CHR 0x7D"
  "lower_char (CHR 0x7E) = CHR 0x7E"
  by (simp_all add: lower_char_table)

subsection \<open>Evaluation at the example inputs\<close>

lemmas pipeline_eval =
  uploadDocuments_def upload_file_eval processDocument_try_def processDocument_catch_def
  DocumentModel_updateAIProcessingResults_def net_tick_def no_results_def
  classifyDocument_def generateSummary_def fallbackClassification_def
  fallbackSummary_def classification_rules_def any_includes_def merge_results_def
  checked_confidence_def or_else_def or_str_def moveToProcessingQueue_def path_join_def
  path_normalize_def basename_def extname_def strip_trailing_slashes_def toLowerCase_def
  lower_char_ascii Let_def dec_9_10 dec_17_20 dec_3_5 dec_4_5 dec_3_2

lemmas example_defs =
  upload_of_def notice_file_def notice_path_def blank_file_def blank_path_def
  safety_engineer_def finance_officer_def env_offline_def env_overconfident_def
  fresh_state_def archive_state_def invoice_row_def drill_row_def classified_response_def
  overconfident_summary_def


section \<open>The upload response\<close>

text \<open>
  C10. An upload with at least one file and a non-empty department answers 201 with
  \<open>success = true\<close>, whatever happens to the single files: the documents array holds the
  files that went through, the message counts them, and when every file fails the array is
  empty and the message reports zero documents.
\<close>

theorem upload_responds_201:
  assumes "req_files req = Some files" and "files \<noteq> []"
      and "body_department req = Some dept" and "dept \<noteq> []"
  shows "status_code (fst (uploadDocuments e s req)) = 201
       \<and> success (fst (uploadDocuments e s req))
       \<and> (\<exists>docs. payload (fst (uploadDocuments e s req)) = Some docs
              \<and> length docs \<le> length files
              \<and> message (fst (uploadDocuments e s req))
                  = Some (show_nat (length docs) @ '' document(s) uploaded successfully''))
       \<and> (all_files_fail e req dept s files \<longrightarrow>
              payload (fst (uploadDocuments e s req)) = Some []
            \<and> message (fst (uploadDocuments e s req))
                  = Some ''0 document(s) uploaded successfully'')"
proof -
  obtain docs s1 where run: "upload_loop e req dept s [] files = (docs, s1)"
    by (cases "upload_loop e req dept s [] files")
  have len: "length docs \<le> length files"
    using upload_loop_length [of e req dept s "[]" files] run by simp
  have none: "all_files_fail e req dept s files \<Longrightarrow> docs = []"
    using upload_loop_all_fail [of e req dept s files "[]"] run by simp
  show ?thesis
    using assms run len none by (auto simp: uploadDocuments_def show_nat_0)
qed

theorem upload_responds_201_witness:
  "req_files (upload_of [blank_file]) = Some [blank_file] \<and> [blank_file] \<noteq> []
   \<and> body_department (upload_of [blank_file]) = Some ''SAFETY'' \<and> ''SAFETY'' \<noteq> []
   \<and> all_files_fail env_offline (upload_of [blank_file]) ''SAFETY'' fresh_state [blank_file]
   \<and> status_code (fst (uploadDocuments env_offline fresh_state (upload_of [blank_file]))) = 201
   \<and> success (fst (uploadDocuments env_offline fresh_state (upload_of [blank_file])))
   \<and> payload (fst (uploadDocuments env_offline fresh_state (upload_of [blank_file]))) = Some []
   \<and> message (fst (uploadDocuments env_offline fresh_state (upload_of [blank_file])))
        = Some ''0 document(s) uploaded successfully''"
proof -
  have hyp: "req_files (upload_of [blank_file]) = Some [blank_file]"
            "body_department (upload_of [blank_file]) = Some ''SAFETY''"
    by (simp_all add: upload_of_def)
  have fail: "all_files_fail env_offline (upload_of [blank_file]) ''SAFETY'' fresh_state [blank_file]"
    by (simp add: upload_file_eval Let_def upload_of_def blank_file_def blank_path_def
          notice_path_def env_offline_def fresh_state_def)
  show ?thesis
    using upload_responds_201 [OF hyp(1) _ hyp(2), of env_offline fresh_state] hyp fail
    by simp
qed

section \<open>Order of the status writes\<close>

text \<open>
  C1, amended. The status values that one processing run writes to its row are, in this
  order and each at most once, processing, failed and completed: a run never writes pending
  and completed is its last write, but failed may be followed by completed, which is what
  the fallback classification of the \<open>catch\<close> block does. The manual reprocess trigger
  writes no status at all.
\<close>

theorem status_writes_in_order:
  "(\<exists>tr. status_writes (snd (addDocumentForProcessing e s data))
            = status_writes s @ map (Pair (job_documentId data)) tr
        \<and> subseq tr [Processing, Failed, Completed])
   \<and> status_writes (snd (DocumentController_processDocument e s' idp u)) = status_writes s'"
  using process_writes [of e s data] manual_writes [of e s' idp u]
  by (simp add: addDocumentForProcessing_def)

text \<open>
  The claim as stated fails: with a summary confidence of 1.5 in the service's answer the
  row of an upload goes through pending, processing, failed and completed.
\<close>

theorem failed_then_completed_counterexample:
  "map snd (status_writes (snd (uploadDocuments env_overconfident fresh_state
       (upload_of [notice_file])))) = [Pending, Processing, Failed, Completed]
   \<and> \<not> forward_only [Pending, Processing, Failed, Completed]"
  by (simp add: pipeline_eval example_defs)

section \<open>Rows of an answered upload\<close>

text \<open>
  C3, amended. When the store accepts its writes and every file of the batch is on disk with
  at least one byte under a path of its own, each file gets a row, and each of these rows is
  completed or failed when the response is returned.
\<close>

theorem upload_resolves_nonempty_files:
  assumes "\<forall>n. \<not> store_fault e n"
      and "req_files req = Some files" and "files \<noteq> []"
      and "body_department req = Some dept" and "dept \<noteq> []"
      and "distinct (map m_path files)"
      and "\<forall>f \<in> set files. on_disk_nonempty s (m_path f)"
  shows "next_id (snd (uploadDocuments e s req)) = next_id s + int (length files)
       \<and> (\<forall>i. next_id s \<le> i \<and> i < next_id (snd (uploadDocuments e s req))
              \<longrightarrow> resolved (db (snd (uploadDocuments e s req)) i))"
  using fold_resolves [OF assms(1,6,7), of req dept]
        uploadDocuments_state [OF assms(2-5), of e s]
  by simp

theorem upload_resolves_nonempty_files_witness:
  "(\<forall>n. \<not> store_fault env_offline n)
   \<and> req_files (upload_of [notice_file]) = Some [notice_file] \<and> [notice_file] \<noteq> []
   \<and> body_department (upload_of [notice_file]) = Some ''SAFETY'' \<and> ''SAFETY'' \<noteq> []
   \<and> distinct (map m_path [notice_file])
   \<and> on_disk_nonempty fresh_state (m_path notice_file)
   \<and> next_id (snd (uploadDocuments env_offline fresh_state (upload_of [notice_file]))) = 2
   \<and> resolved (db (snd (uploadDocuments env_offline fresh_state (upload_of [notice_file]))) 1)"
proof -
  have h1: "\<forall>n. \<not> store_fault env_offline n" by (simp add: env_offline_def)
  have h2: "req_files (upload_of [notice_file]) = Some [notice_file]"
    and h4: "body_department (upload_of [notice_file]) = Some ''SAFETY''"
    by (simp_all add: upload_of_def)
  have h6: "distinct (map m_path [notice_file])" by simp
  have h7: "\<forall>f \<in> set [notice_file]. on_disk_nonempty fresh_state (m_path f)"
    by (simp add: on_disk_nonempty_def fresh_state_def notice_file_def notice_path_def
          blank_path_def)
  have n: "next_id fresh_state = 1" by (simp add: fresh_state_def)
  from upload_resolves_nonempty_files [OF h1 h2 _ h4 _ h6 h7] n h1 h2 h4 h6 h7
  show ?thesis by simp
qed

theorem empty_file_stays_pending_counterexample:
  "status_code (fst (uploadDocuments env_offline fresh_state (upload_of [blank_file]))) = 201
   \<and> next_id fresh_state = 1
   \<and> next_id (snd (uploadDocuments env_offline fresh_state (upload_of [blank_file]))) = 2
   \<and> map_option processing_status (db (snd (uploadDocuments env_offline fresh_state (upload_of [blank_file]))) 1)
       = Some Pending"
  by (simp add: uploadDocuments_def upload_file_eval Let_def upload_of_def blank_file_def
        blank_path_def notice_path_def env_offline_def fresh_state_def)


section \<open>Confidence values of stored rows\<close>

lemma decimal_range: "decimal_5_4_checked x = Some v \<Longrightarrow> 0 \<le> v \<and> v \<le> 1"
  by (auto simp: decimal_5_4_checked_def Let_def split: if_splits)

lemma checked_range: "checked_confidence c = Inr c' \<Longrightarrow> in_unit_interval c'"
  by (auto simp: checked_confidence_def in_unit_interval_def dest: decimal_range
      split: option.splits)

lemma or_else_range: "in_unit_interval a \<Longrightarrow> in_unit_interval b \<Longrightarrow> in_unit_interval (or_else a b)"
  by (auto simp: or_else_def split: option.splits)

lemma merge_conf:
  "merge_results d r = Inr d' \<Longrightarrow> confidences_ok d \<Longrightarrow> confidences_ok d'"
  by (auto simp: merge_results_def confidences_ok_def dest!: checked_range intro: or_else_range
      split: sum.splits)

lemma update_conf:
  "store_confidences_ok s \<Longrightarrow>
     store_confidences_ok (snd (DocumentModel_updateAIProcessingResults e s i r))"
  by (auto simp: store_confidences_ok_def DocumentModel_updateAIProcessingResults_def tick_def
      dest: merge_conf split: option.splits sum.splits)

lemma conf_net_tick [simp]: "store_confidences_ok (net_tick s) = store_confidences_ok s"
  by (simp add: store_confidences_ok_def net_tick_def)

lemma conf_tick [simp]: "store_confidences_ok (tick s) = store_confidences_ok s"
  by (simp add: store_confidences_ok_def tick_def)

lemma try_conf:
  "store_confidences_ok s \<Longrightarrow> store_confidences_ok (snd (processDocument_try e s i p))"
  by (auto simp: processDocument_try_def case_prod_beta intro!: update_conf split: sum.splits)

lemma catch_conf:
  "store_confidences_ok s \<Longrightarrow> store_confidences_ok (snd (processDocument_catch e s i p))"
  by (auto simp: processDocument_catch_def case_prod_beta intro!: update_conf split: sum.splits)

lemma prepare_conf:
  "store_confidences_ok (snd (prepareDocumentForMLProcessing e s p)) = store_confidences_ok s"
  by (simp add: store_confidences_ok_def prepare_frame)

lemma process_conf:
  "store_confidences_ok s \<Longrightarrow> store_confidences_ok (snd (processDocument e s data))"
  by (auto simp: process_shape Let_def prepare_conf intro!: try_conf catch_conf split: sum.splits)

lemma created_conf:
  "store_confidences_ok s \<Longrightarrow> store_confidences_ok (created s (documentData_of req dept f))"
  by (auto simp: store_confidences_ok_def created_def tick_def documentData_of_def
        confidences_ok_def in_unit_interval_def)

lemma upload_file_conf:
  "store_confidences_ok s \<Longrightarrow> store_confidences_ok (snd (upload_file e s req dept f))"
  by (auto simp: upload_file_state intro!: process_conf created_conf)

lemma fold_conf:
  "store_confidences_ok s \<Longrightarrow>
     store_confidences_ok (foldl (\<lambda>s f. snd (upload_file e s req dept f)) s files)"
  by (induction files arbitrary: s) (auto intro: upload_file_conf)

lemma upload_conf:
  "store_confidences_ok s \<Longrightarrow> store_confidences_ok (snd (uploadDocuments e s req))"
  using uploadDocuments_state_cases [of e s req] fold_conf [of s e req] by auto

lemma query_conf:
  "store_confidences_ok (snd (run_query e s keep flt pg lm)) = store_confidences_ok s"
  by (auto simp: run_query_def Let_def split: sum.splits)

lemma findById_conf:
  "store_confidences_ok (snd (DocumentModel_findById e s i)) = store_confidences_ok s"
  by (simp add: DocumentModel_findById_def)

lemma readers_conf:
  "store_confidences_ok (snd (getDocuments e s lreq)) = store_confidences_ok s"
  "store_confidences_ok (snd (searchDocuments e s sreq)) = store_confidences_ok s"
  "store_confidences_ok (snd (getDocumentById e s idp u)) = store_confidences_ok s"
  "store_confidences_ok (snd (downloadDocument e s idp u)) = store_confidences_ok s"
  "store_confidences_ok (snd (DocumentController_processDocument e s idp u)) = store_confidences_ok s"
  by (auto simp: getDocuments_def searchDocuments_def getDocumentById_def downloadDocument_def
        DocumentController_processDocument_def DocumentModel_getDocuments_def
        DocumentModel_searchDocuments_def query_conf findById_conf Let_def case_prod_beta
      split: sum.splits option.splits)

lemma delete_conf:
  "store_confidences_ok s \<Longrightarrow> store_confidences_ok (fst (snd (deleteDocument e s idp u)))"
  by (auto simp: deleteDocument_def DocumentModel_findById_def DocumentModel_deleteDocument_def
        Let_def store_confidences_ok_def tick_def
      split: sum.splits option.splits if_splits)

lemma reachable_conf: "reachable e s \<Longrightarrow> store_confidences_ok s"
proof (induction rule: reachable.induct)
  case (initial s)
  then show ?case by (simp add: store_confidences_ok_def)
next
  case (disk s files)
  then show ?case by (simp add: store_confidences_ok_def)
qed (simp_all add: upload_conf readers_conf delete_conf)

lemma overconfident_row:
  "\<exists>d. db (snd (uploadDocuments env_overconfident fresh_state (upload_of [notice_file]))) 1 = Some d
       \<and> processing_status d = Completed \<and> summary_confidence d = None
       \<and> classification_confidence d = Some (9 / 10)"
  by (simp add: pipeline_eval example_defs)

text \<open>
  C9. In every state the application can reach, the classification confidence and the
  summary confidence of every row, when present, lie between 0 and 1, whatever the external
  service answered: the pipeline hands the service's values to the store as they are, and
  the columns of the migration reject a row update with a value outside the interval.
\<close>

theorem confidences_stay_in_unit_interval:
  assumes "reachable e s" and "db s i = Some d"
  shows "(case classification_confidence d of None \<Rightarrow> True | Some c \<Rightarrow> 0 \<le> c \<and> c \<le> 1)
       \<and> (case summary_confidence d of None \<Rightarrow> True | Some c \<Rightarrow> 0 \<le> c \<and> c \<le> 1)"
  using reachable_conf [OF assms(1)] assms(2)
  by (simp add: store_confidences_ok_def confidences_ok_def in_unit_interval_def)

theorem confidences_stay_in_unit_interval_witness:
  "reachable env_overconfident
     (snd (uploadDocuments env_overconfident fresh_state (upload_of [notice_file])))
   \<and> (\<exists>d. db (snd (uploadDocuments env_overconfident fresh_state (upload_of [notice_file]))) 1
             = Some d
          \<and> processing_status d = Completed
          \<and> (case classification_confidence d of None \<Rightarrow> True | Some c \<Rightarrow> 0 \<le> c \<and> c \<le> 1)
          \<and> (case summary_confidence d of None \<Rightarrow> True | Some c \<Rightarrow> 0 \<le> c \<and> c \<le> 1))"
proof -
  let ?S = "snd (uploadDocuments env_overconfident fresh_state (upload_of [notice_file]))"
  have "db fresh_state = Map.empty" by (simp add: fresh_state_def)
  then have "reachable env_overconfident fresh_state" by (rule reachable.initial)
  then have r: "reachable env_overconfident ?S" by (rule reachable.upload)
  from overconfident_row obtain d where d: "db ?S 1 = Some d" "processing_status d = Completed"
    by (elim exE conjE)
  from confidences_stay_in_unit_interval [OF r d(1)] r d show ?thesis
    by (intro conjI exI [of _ d]) simp_all
qed

section \<open>A safety notice uploaded while the external service is unreachable\<close>

subsection \<open>The fallback classification of a stored name\<close>

lemma str_includes_append_left: "str_includes t k \<Longrightarrow> str_includes (p @ t) k"
  by (induction p) auto

lemma no_match_first:
  assumes "k \<noteq> []" and "hd k \<notin> set sc" and "set p \<subseteq> set sc" and "\<not> str_includes t k"
  shows "\<not> str_includes (p @ t) k"
  using assms(3)
proof (induction p)
  case Nil
  then show ?case using assms(4) by simp
next
  case (Cons c p)
  have "\<not> prefix k (c # p @ t)"
  proof
    assume "prefix k (c # p @ t)"
    with assms(1) have "hd k = c" by (cases k) auto
    with Cons.prems assms(2) show False by auto
  qed
  with Cons show ?case by simp
qed

lemma no_match_second:
  assumes "k = a # b # k'" and "b \<notin> set sc" and "set p \<subseteq> set sc"
      and "t = x # t'" and "b \<noteq> x" and "\<not> str_includes t k"
  shows "\<not> str_includes (p @ t) k"
  using assms(3)
proof (induction p)
  case Nil
  then show ?case using assms(6) by simp
next
  case (Cons c p)
  have "\<not> prefix k (c # p @ t)"
  proof
    assume "prefix k (c # p @ t)"
    then have "prefix (b # k') (p @ t)" using assms(1) by simp
    then show False
    proof (cases p)
      case Nil
      with \<open>prefix (b # k') (p @ t)\<close> assms(4,5) show False by simp
    next
      case (Cons c' p')
      with \<open>prefix (b # k') (p @ t)\<close> have "b = c'" by simp
      with Cons Cons.prems assms(2) show False by auto
    qed
  qed
  with Cons show ?case by simp
qed


lemma lower_concrete:
  "lower_char CHR ''0'' = CHR ''0''" "lower_char CHR ''1'' = CHR ''1''"
  "lower_char CHR ''2'' = CHR ''2''" "lower_char CHR ''3'' = CHR ''3''"
  "lower_char CHR ''4'' = CHR ''4''" "lower_char CHR ''5'' = CHR ''5''"
  "lower_char CHR ''6'' = CHR ''6''" "lower_char CHR ''7'' = CHR ''7''"
  "lower_char CHR ''8'' = CHR ''8''" "lower_char CHR ''9'' = CHR ''9''"
  "lower_char CHR ''a'' = CHR ''a''" "lower_char CHR ''b'' = CHR ''b''"
  "lower_char CHR ''c'' = CHR ''c''" "lower_char CHR ''d'' = CHR ''d''"
  "lower_char CHR ''e'' = CHR ''e''" "lower_char CHR ''f'' = CHR ''f''"
  "lower_char CHR ''-'' = CHR ''-''" "lower_char CHR ''_'' = CHR ''_''"
  by (simp_all add: lower_char_ascii)

lemma lower_stamp_char: "c \<in> set stamp_chars \<Longrightarrow> lower_char c = c"
proof -
  assume "c \<in> set stamp_chars"
  then have "c = CHR ''0'' \<or> c = CHR ''1'' \<or> c = CHR ''2'' \<or> c = CHR ''3'' \<or> c = CHR ''4''
      \<or> c = CHR ''5'' \<or> c = CHR ''6'' \<or> c = CHR ''7'' \<or> c = CHR ''8'' \<or> c = CHR ''9''
      \<or> c = CHR ''a'' \<or> c = CHR ''b'' \<or> c = CHR ''c'' \<or> c = CHR ''d'' \<or> c = CHR ''e''
      \<or> c = CHR ''f'' \<or> c = CHR ''-'' \<or> c = CHR ''_''"
    by (simp add: stamp_chars_def)
  then show ?thesis
    by (elim disjE) (simp_all only: lower_concrete)
qed
lemma lower_stamp: "set p \<subseteq> set stamp_chars \<Longrightarrow> toLowerCase p = p"
  by (induction p) (simp_all add: toLowerCase_def lower_stamp_char)

lemma stamped_no_match:
  assumes "set p \<subseteq> set stamp_chars"
  shows "\<not> str_includes (p @ ''safety_notice.pdf'') ''maintenance''"
        "\<not> str_includes (p @ ''safety_notice.pdf'') ''inspection''"
        "\<not> str_includes (p @ ''safety_notice.pdf'') ''repair''"
        "\<not> str_includes (p @ ''safety_notice.pdf'') ''operation''"
        "\<not> str_includes (p @ ''safety_notice.pdf'') ''schedule''"
        "\<not> str_includes (p @ ''safety_notice.pdf'') ''invoice''"
        "\<not> str_includes (p @ ''safety_notice.pdf'') ''purchase''"
        "\<not> str_includes (p @ ''safety_notice.pdf'') ''regulation''"
        "\<not> str_includes (p @ ''safety_notice.pdf'') ''standard''"
        "\<not> str_includes (p @ ''safety_notice.pdf'') ''bill''"
        "\<not> str_includes (p @ ''safety_notice.pdf'') ''budget''"
        "\<not> str_includes (p @ ''safety_notice.pdf'') ''financial''"
        "\<not> str_includes (p @ ''safety_notice.pdf'') ''audit''"
        "\<not> str_includes (p @ ''safety_notice.pdf'') ''compliance''"
proof -
  note a = no_match_first [where t = "''safety_notice.pdf''", OF _ _ assms]
  note b = no_match_second [where t = "''safety_notice.pdf''" and x = "CHR ''s''"
                              and t' = "''afety_notice.pdf''", OF _ _ assms]
  show "\<not> str_includes (p @ ''safety_notice.pdf'') ''maintenance''"
    by (rule a) (simp_all add: stamp_chars_def)
  show "\<not> str_includes (p @ ''safety_notice.pdf'') ''inspection''"
    by (rule a) (simp_all add: stamp_chars_def)
  show "\<not> str_includes (p @ ''safety_notice.pdf'') ''repair''"
    by (rule a) (simp_all add: stamp_chars_def)
  show "\<not> str_includes (p @ ''safety_notice.pdf'') ''operation''"
    by (rule a) (simp_all add: stamp_chars_def)
  show "\<not> str_includes (p @ ''safety_notice.pdf'') ''schedule''"
    by (rule a) (simp_all add: stamp_chars_def)
  show "\<not> str_includes (p @ ''safety_notice.pdf'') ''invoice''"
    by (rule a) (simp_all add: stamp_chars_def)
  show "\<not> str_includes (p @ ''safety_notice.pdf'') ''purchase''"
    by (rule a) (simp_all add: stamp_chars_def)
  show "\<not> str_includes (p @ ''safety_notice.pdf'') ''regulation''"
    by (rule a) (simp_all add: stamp_chars_def)
  show "\<not> str_includes (p @ ''safety_notice.pdf'') ''standard''"
    by (rule a) (simp_all add: stamp_chars_def)
  show "\<not> str_includes (p @ ''safety_notice.pdf'') ''bill''"
    by (rule b [where a = "CHR ''b''" and b = "CHR ''i''" and k' = "''ll''"])
       (simp_all add: stamp_chars_def)
  show "\<not> str_includes (p @ ''safety_notice.pdf'') ''budget''"
    by (rule b [where a = "CHR ''b''" and b = "CHR ''u''" and k' = "''dget''"])
       (simp_all add: stamp_chars_def)
  show "\<not> str_includes (p @ ''safety_notice.pdf'') ''financial''"
    by (rule b [where a = "CHR ''f''" and b = "CHR ''i''" and k' = "''nancial''"])
       (simp_all add: stamp_chars_def)
  show "\<not> str_includes (p @ ''safety_notice.pdf'') ''audit''"
    by (rule b [where a = "CHR ''a''" and b = "CHR ''u''" and k' = "''dit''"])
       (simp_all add: stamp_chars_def)
  show "\<not> str_includes (p @ ''safety_notice.pdf'') ''compliance''"
    by (rule b [where a = "CHR ''c''" and b = "CHR ''o''" and k' = "''mpliance''"])
       (simp_all add: stamp_chars_def)
qed


lemma stamped_rules:
  assumes "set p \<subseteq> set stamp_chars"
  shows "classification_rules (p @ ''safety_notice.pdf'') ''pdf'' [] =
           (''safety&training'', 9 / 10,
            [''Safety protocol'', ''Training material'', ''Hazard identification'', ''Emergency procedure''],
            [''SAFETY'', ''HR'', ''OPERATIONS''])"
proof -
  have y: "str_includes (p @ ''safety_notice.pdf'') ''safety''"
    by (rule str_includes_append_left) simp
  show ?thesis
    by (simp add: classification_rules_def any_includes_def stamped_no_match [OF assms] y)
qed

lemma stamped_not_dots: "p @ ''safety_notice.pdf'' \<noteq> ''..''"
proof
  assume "p @ ''safety_notice.pdf'' = ''..''"
  then have "length (p @ ''safety_notice.pdf'') = length ''..''" by (rule arg_cong)
  then show False by simp
qed

lemma stamped_extname:
  assumes "basename q = p @ ''safety_notice.pdf''"
  shows "extname q = ''.pdf''"
  by (simp add: extname_def assms Let_def stamped_not_dots)

lemma stamped_fallback:
  assumes "basename q = p @ ''safety_notice.pdf''" and "set p \<subseteq> set stamp_chars"
  shows "document_type (fallbackClassification [] q) = Some ''safety&training''"
    and "confidence (fallbackClassification [] q) = Some (9 / 10)"
proof -
  have low: "toLowerCase (p @ ''safety_notice.pdf'') = p @ ''safety_notice.pdf''"
    using lower_stamp [OF assms(2)] by (simp add: toLowerCase_def lower_char_ascii)
  have ext: "toLowerCase (drop 1 (extname q)) = ''pdf''"
    by (simp add: stamped_extname [OF assms(1)] toLowerCase_def lower_char_ascii)
  have emp: "toLowerCase [] = []" by (simp add: toLowerCase_def)
  show "document_type (fallbackClassification [] q) = Some ''safety&training''"
    unfolding fallbackClassification_def Let_def assms(1) low ext emp stamped_rules [OF assms(2)]
    by simp
  show "confidence (fallbackClassification [] q) = Some (9 / 10)"
    unfolding fallbackClassification_def Let_def assms(1) low ext emp stamped_rules [OF assms(2)]
    by simp
qed

subsection \<open>Processing without the external service\<close>

lemma rules_confidence:
  "fst (snd (classification_rules f x c)) = 17 / 20
   \<or> fst (snd (classification_rules f x c)) = 9 / 10
   \<or> fst (snd (classification_rules f x c)) = 3 / 5"
  by (simp add: classification_rules_def)

lemma fallback_fields:
  "\<exists>dt c. document_type (fallbackClassification t q) = Some dt
        \<and> confidence (fallbackClassification t q) = Some c
        \<and> decimal_5_4_checked c = Some c"
proof -
  let ?r = "classification_rules (toLowerCase (basename q))
              (toLowerCase (drop 1 (extname q))) (toLowerCase t)"
  have "decimal_5_4_checked (fst (snd ?r)) = Some (fst (snd ?r))"
  proof -
    from rules_confidence [of "toLowerCase (basename q)" "toLowerCase (drop 1 (extname q))"
            "toLowerCase t"]
    consider "fst (snd ?r) = 17 / 20" | "fst (snd ?r) = 9 / 10" | "fst (snd ?r) = 3 / 5"
      by blast
    then show ?thesis by cases (simp_all only: dec_17_20 dec_9_10 dec_3_5)
  qed
  then show ?thesis
    by (simp add: fallbackClassification_def Let_def case_prod_beta)
qed

lemma classify_offline:
  "\<forall>n. axios_post e n = AxiosThrows \<Longrightarrow>
     classifyDocument e s t p = (fallbackClassification t p, net_tick s)"
  by (simp add: classifyDocument_def)

lemma summary_offline:
  "\<forall>n. axios_post e n = AxiosThrows \<Longrightarrow>
     generateSummary e s p t = (fallbackSummary p, net_tick s)"
  by (simp add: generateSummary_def)

lemma try_offline:
  assumes off: "\<forall>n. axios_post e n = AxiosThrows" and up: "\<forall>n. \<not> store_fault e n"
      and row: "db s i = Some d"
  shows "\<exists>u d'. fst (processDocument_try e s i p) = Inr u
           \<and> db (snd (processDocument_try e s i p)) i = Some d'
           \<and> processing_status d' = Completed
           \<and> original_filename d' = original_filename d \<and> department d' = department d
           \<and> ai_classification d' = document_type (fallbackClassification [] p)
           \<and> classification_confidence d' = confidence (fallbackClassification [] p)"
proof -
  obtain dt c where fb: "document_type (fallbackClassification [] p) = Some dt"
      "confidence (fallbackClassification [] p) = Some c" "decimal_5_4_checked c = Some c"
    using fallback_fields [of "[]" p] by blast
  show ?thesis
    using up row fb
    by (simp add: processDocument_try_def classify_offline [OF off] summary_offline [OF off]
          DocumentModel_updateAIProcessingResults_def no_results_def tick_def net_tick_def
          merge_results_def checked_confidence_def or_else_def fallbackSummary_def Let_def
          dec_3_5)
qed

lemma process_offline:
  assumes off: "\<forall>n. axios_post e n = AxiosThrows" and up: "\<forall>n. \<not> store_fault e n"
      and row: "db s (job_documentId data) = Some d"
      and disk: "on_disk_nonempty s (job_filePath data)"
  shows "\<exists>d'. db (snd (processDocument e s data)) (job_documentId data) = Some d'
           \<and> processing_status d' = Completed
           \<and> original_filename d' = original_filename d \<and> department d' = department d
           \<and> ai_classification d' = document_type (fallbackClassification [] (job_filePath data))
           \<and> classification_confidence d' = confidence (fallbackClassification [] (job_filePath data))"
proof -
  let ?s1 = "snd (prepareDocumentForMLProcessing e s (job_filePath data))"
  have "db ?s1 (job_documentId data) = Some d" using row by (simp add: prepare_frame)
  from try_offline [OF off up this, of "job_filePath data"] disk
  show ?thesis by (auto simp: process_shape Let_def)
qed


text \<open>
  C6. With the external service unreachable and the store working, the upload of a file
  named \<open>safety_notice.pdf\<close> with department \<open>SAFETY\<close>, stored by multer under its
  stamped name, leaves a row with classification \<open>safety&training\<close>, classification
  confidence 0.90 and status completed.
\<close>

theorem safety_notice_offline:
  assumes off: "\<forall>n. axios_post e n = AxiosThrows"
      and up: "\<forall>n. \<not> store_fault e n"
      and files: "req_files req = Some [f]"
      and dept: "body_department req = Some ''SAFETY''"
      and name: "originalname f = ''safety_notice.pdf''"
      and stored: "basename (m_path f) = stamp @ ''safety_notice.pdf''"
      and stamp: "set stamp \<subseteq> set stamp_chars"
      and disk: "on_disk_nonempty s (m_path f)"
  shows "\<exists>d. db (snd (uploadDocuments e s req)) (next_id s) = Some d
           \<and> original_filename d = ''safety_notice.pdf'' \<and> department d = ''SAFETY''
           \<and> ai_classification d = Some ''safety&training''
           \<and> classification_confidence d = Some (9 / 10)
           \<and> processing_status d = Completed"
proof -
  let ?dd = "documentData_of req ''SAFETY'' f"
  let ?s1 = "created s ?dd"
  let ?job = "\<lparr> job_documentId = next_id s, job_filePath = m_path f,
                 job_userId = user_id (upload_user req), job_department = ''SAFETY'' \<rparr>"
  have st: "snd (uploadDocuments e s req) = snd (processDocument e ?s1 ?job)"
    using uploadDocuments_state [OF files _ dept, of e s] up by (simp add: upload_file_state)
  have row: "db ?s1 (job_documentId ?job) = Some (?dd\<lparr>doc_id := next_id s\<rparr>)"
    by (simp add: created_def tick_def)
  have d1: "on_disk_nonempty ?s1 (job_filePath ?job)"
    using disk by (simp add: on_disk_nonempty_def created_def tick_def)
  from process_offline [OF off up row d1] stamped_fallback [OF stored stamp] name
  show ?thesis by (auto simp: st documentData_of_def)
qed

theorem safety_notice_offline_witness:
  "(\<forall>n. axios_post env_offline n = AxiosThrows) \<and> (\<forall>n. \<not> store_fault env_offline n)
   \<and> req_files (upload_of [notice_file]) = Some [notice_file]
   \<and> body_department (upload_of [notice_file]) = Some ''SAFETY''
   \<and> originalname notice_file = ''safety_notice.pdf''
   \<and> basename (m_path notice_file) = ''2026-11-02_1a2b3c4d_'' @ ''safety_notice.pdf''
   \<and> set ''2026-11-02_1a2b3c4d_'' \<subseteq> set stamp_chars
   \<and> on_disk_nonempty fresh_state (m_path notice_file)
   \<and> (\<exists>d. db (snd (uploadDocuments env_offline fresh_state (upload_of [notice_file]))) 1 = Some d
          \<and> ai_classification d = Some ''safety&training''
          \<and> classification_confidence d = Some (9 / 10)
          \<and> processing_status d = Completed)"
proof -
  have h1: "\<forall>n. axios_post env_offline n = AxiosThrows" and h2: "\<forall>n. \<not> store_fault env_offline n"
    by (simp_all add: env_offline_def)
  have h3: "req_files (upload_of [notice_file]) = Some [notice_file]"
    and h4: "body_department (upload_of [notice_file]) = Some ''SAFETY''"
    by (simp_all add: upload_of_def)
  have h5: "originalname notice_file = ''safety_notice.pdf''" by (simp add: notice_file_def)
  have h6: "basename (m_path notice_file) = ''2026-11-02_1a2b3c4d_'' @ ''safety_notice.pdf''"
    by (simp add: notice_file_def notice_path_def basename_def strip_trailing_slashes_def)
  have h7: "set ''2026-11-02_1a2b3c4d_'' \<subseteq> set stamp_chars" by (simp add: stamp_chars_def)
  have h8: "on_disk_nonempty fresh_state (m_path notice_file)"
    by (simp add: on_disk_nonempty_def fresh_state_def notice_file_def notice_path_def
          blank_path_def)
  have n: "next_id fresh_state = 1" by (simp add: fresh_state_def)
  from safety_notice_offline [OF h1 h2 h3 h4 h5 h6 h7 h8] n
  have "\<exists>d. db (snd (uploadDocuments env_offline fresh_state (upload_of [notice_file]))) 1 = Some d
          \<and> ai_classification d = Some ''safety&training''
          \<and> classification_confidence d = Some (9 / 10)
          \<and> processing_status d = Completed"
    by auto
  with h1 h2 h3 h4 h5 h6 h7 h8 show ?thesis by blast
qed


section \<open>Download after upload\<close>

lemmas read_eval =
  downloadDocument_def DocumentModel_findById_def parseInt_def is_space_def is_digit_def
  digit_value_def digits_value_def failure_def

text \<open>
  C2, at the failing input. A three-byte PDF is uploaded and accepted; the processing queue
  moves it into the queue directory and leaves \<open>file_path\<close> as it was, so the download
  of the new record answers 404 while the bytes sit under the queue path.
\<close>

theorem download_after_upload_not_found:
  "map_option (map u_id) (payload (fst (uploadDocuments env_offline fresh_state
       (upload_of [notice_file])))) = Some [1]
   \<and> fst (downloadDocument env_offline
            (snd (uploadDocuments env_offline fresh_state (upload_of [notice_file])))
            ''1'' safety_engineer)
       = DownloadJson (failure 404 ''File not found on disk'')
   \<and> fs (snd (uploadDocuments env_offline fresh_state (upload_of [notice_file])))
        ''uploads/ml-queue/2026-11-02_1a2b3c4d_safety_notice.pdf'' = Some [37, 80, 68]"
  by (simp add: pipeline_eval example_defs read_eval uploaded_entry_def)


section \<open>Uploads and enrichment failures\<close>

lemma fold_next_id:
  assumes "\<forall>n. \<not> store_fault e n"
  shows "next_id (foldl (\<lambda>s f. snd (upload_file e s req dept f)) s files)
           = next_id s + int (length files)"
proof (induction files arbitrary: s)
  case Nil
  then show ?case by simp
next
  case (Cons f files)
  show ?case
    using Cons.IH [of "snd (upload_file e s req dept f)"]
          upload_file_works(1) [OF assms, of s req dept f]
    by simp
qed

lemma fold_keeps_bytes:
  assumes "\<forall>g \<in> set files. fs s (queue_path e (m_path g)) = None"
      and "distinct (map (\<lambda>g. queue_path e (m_path g)) files)"
      and "fs s p = Some b"
  shows "\<exists>p'. fs (foldl (\<lambda>s f. snd (upload_file e s req dept f)) s files) p' = Some b"
  using assms
proof (induction files arbitrary: s p)
  case Nil
  then show ?case by auto
next
  case (Cons f files)
  let ?s1 = "snd (upload_file e s req dept f)"
  let ?q = "queue_path e (m_path f)"
  from upload_file_fs [of e s req dept f]
  consider (same) "fs ?s1 = fs s"
    | (moved) "on_disk_nonempty s (m_path f)"
        "fs ?s1 = ((fs s)(m_path f := None))(?q := fs s (m_path f))"
    by blast
  then have step: "(\<exists>p1. fs ?s1 p1 = Some b)
      \<and> (\<forall>g \<in> set files. fs ?s1 (queue_path e (m_path g)) = None)"
  proof cases
    case same
    then show ?thesis using Cons.prems by auto
  next
    case moved
    have free: "fs s ?q = None" using Cons.prems(1) by simp
    have "\<exists>p1. fs ?s1 p1 = Some b"
    proof (cases "p = m_path f")
      case True
      then have "fs ?s1 ?q = Some b" using moved(2) Cons.prems(3) by simp
      then show ?thesis by blast
    next
      case False
      moreover have "p \<noteq> ?q" using free Cons.prems(3) by auto
      ultimately have "fs ?s1 p = Some b" using moved(2) Cons.prems(3) by simp
      then show ?thesis by blast
    qed
    moreover have "\<forall>g \<in> set files. fs ?s1 (queue_path e (m_path g)) = None"
    proof
      fix g assume g: "g \<in> set files"
      then have "queue_path e (m_path g) \<in> (\<lambda>g. queue_path e (m_path g)) ` set files" by simp
      then have "queue_path e (m_path g) \<noteq> ?q" using Cons.prems(2) by auto
      moreover have "fs s (queue_path e (m_path g)) = None" using Cons.prems(1) g by simp
      ultimately show "fs ?s1 (queue_path e (m_path g)) = None" using moved(2) by simp
    qed
    ultimately show ?thesis by simp
  qed
  then obtain p1 where p1: "fs ?s1 p1 = Some b" by blast
  from Cons.IH [OF _ _ p1] step Cons.prems(2) show ?case by simp
qed

text \<open>
  C4. Whatever the external service does (it throws, times out, answers without success, or
  answers at all), an upload with at least one file and a non-empty department answers 201
  with \<open>success = true\<close>; when the store works, every file of the batch gets its record,
  whatever happened to the files before it; and when the queue directory holds no file under
  the names of the batch and these names differ, the bytes of every file of the batch are
  still on disk afterwards.
\<close>

theorem enrichment_failure_never_fails_upload:
  assumes "req_files req = Some files" and "files \<noteq> []"
      and "body_department req = Some dept" and "dept \<noteq> []"
  shows "status_code (fst (uploadDocuments e s req)) = 201
       \<and> success (fst (uploadDocuments e s req))
       \<and> ((\<forall>n. \<not> store_fault e n) \<longrightarrow>
            next_id (snd (uploadDocuments e s req)) = next_id s + int (length files))
       \<and> ((\<forall>g \<in> set files. fs s (queue_path e (m_path g)) = None)
            \<and> distinct (map (\<lambda>g. queue_path e (m_path g)) files) \<longrightarrow>
            (\<forall>f \<in> set files. \<forall>b. fs s (m_path f) = Some b \<longrightarrow>
               (\<exists>p. fs (snd (uploadDocuments e s req)) p = Some b)))"
proof -
  have st: "snd (uploadDocuments e s req) = foldl (\<lambda>s f. snd (upload_file e s req dept f)) s files"
    by (rule uploadDocuments_state [OF assms])
  have "status_code (fst (uploadDocuments e s req)) = 201 \<and> success (fst (uploadDocuments e s req))"
    using assms by (simp add: uploadDocuments_def case_prod_beta)
  moreover have "(\<forall>n. \<not> store_fault e n) \<longrightarrow>
      next_id (snd (uploadDocuments e s req)) = next_id s + int (length files)"
    using fold_next_id [of e req dept s files] st by simp
  moreover have "(\<forall>g \<in> set files. fs s (queue_path e (m_path g)) = None)
            \<and> distinct (map (\<lambda>g. queue_path e (m_path g)) files) \<longrightarrow>
            (\<forall>f \<in> set files. \<forall>b. fs s (m_path f) = Some b \<longrightarrow>
               (\<exists>p. fs (snd (uploadDocuments e s req)) p = Some b))"
    using fold_keeps_bytes [of files s e _ _ req dept] st by simp
  ultimately show ?thesis by blast
qed


theorem enrichment_failure_never_fails_upload_witness:
  "req_files (upload_of [blank_file, notice_file]) = Some [blank_file, notice_file]
   \<and> [blank_file, notice_file] \<noteq> []
   \<and> body_department (upload_of [blank_file, notice_file]) = Some ''SAFETY'' \<and> ''SAFETY'' \<noteq> []
   \<and> (\<forall>n. axios_post env_offline n = AxiosThrows) \<and> (\<forall>n. \<not> store_fault env_offline n)
   \<and> fs fresh_state (queue_path env_offline (m_path blank_file)) = None
   \<and> fs fresh_state (queue_path env_offline (m_path notice_file)) = None
   \<and> distinct (map (\<lambda>g. queue_path env_offline (m_path g)) [blank_file, notice_file])
   \<and> notice_file \<in> set [blank_file, notice_file]
   \<and> fs fresh_state (m_path notice_file) = Some [37, 80, 68]
   \<and> status_code (fst (uploadDocuments env_offline fresh_state (upload_of [blank_file, notice_file]))) = 201
   \<and> success (fst (uploadDocuments env_offline fresh_state (upload_of [blank_file, notice_file])))
   \<and> next_id (snd (uploadDocuments env_offline fresh_state (upload_of [blank_file, notice_file]))) = 3
   \<and> (\<exists>p. fs (snd (uploadDocuments env_offline fresh_state (upload_of [blank_file, notice_file]))) p
             = Some [37, 80, 68])"
proof -
  let ?files = "[blank_file, notice_file]"
  have h1: "req_files (upload_of ?files) = Some ?files"
    and h3: "body_department (upload_of ?files) = Some ''SAFETY''"
    by (simp_all add: upload_of_def)
  have h5: "\<forall>n. axios_post env_offline n = AxiosThrows" and h6: "\<forall>n. \<not> store_fault env_offline n"
    by (simp_all add: env_offline_def)
  have q1: "queue_path env_offline (m_path blank_file) = ''uploads/ml-queue/2026-11-02_5e6f7a8b_blank.pdf''"
    by (simp add: queue_path_def path_join_def path_normalize_def basename_def
          strip_trailing_slashes_def env_offline_def blank_file_def blank_path_def)
  have q2: "queue_path env_offline (m_path notice_file)
              = ''uploads/ml-queue/2026-11-02_1a2b3c4d_safety_notice.pdf''"
    by (simp add: queue_path_def path_join_def path_normalize_def basename_def
          strip_trailing_slashes_def env_offline_def notice_file_def notice_path_def)
  have h7: "\<forall>g \<in> set ?files. fs fresh_state (queue_path env_offline (m_path g)) = None"
    by (simp add: q1 q2 fresh_state_def notice_path_def blank_path_def)
  have h8: "distinct (map (\<lambda>g. queue_path env_offline (m_path g)) ?files)"
    by (simp add: q1 q2)
  have h9: "notice_file \<in> set ?files" by simp
  have h10: "fs fresh_state (m_path notice_file) = Some [37, 80, 68]"
    by (simp add: fresh_state_def notice_file_def notice_path_def blank_path_def)
  have n: "next_id fresh_state = 1" by (simp add: fresh_state_def)
  from enrichment_failure_never_fails_upload [OF h1 _ h3, of env_offline fresh_state]
  have c: "status_code (fst (uploadDocuments env_offline fresh_state (upload_of ?files))) = 201"
          "success (fst (uploadDocuments env_offline fresh_state (upload_of ?files)))"
          "next_id (snd (uploadDocuments env_offline fresh_state (upload_of ?files))) = 3"
          "\<exists>p. fs (snd (uploadDocuments env_offline fresh_state (upload_of ?files))) p
                 = Some [37, 80, 68]"
    using h6 h7 h8 h9 h10 n by auto
  from h7 have h7': "fs fresh_state (queue_path env_offline (m_path blank_file)) = None"
      "fs fresh_state (queue_path env_offline (m_path notice_file)) = None"
    by simp_all
  from h1 h3 h5 h6 h7' h8 h9 h10 c show ?thesis by blast
qed

section \<open>Department isolation\<close>

lemma page_window_subset: "page_window pg lm xs = Inr ys \<Longrightarrow> set ys \<subseteq> set xs"
  by (auto simp: page_window_def split: option.splits if_splits dest: in_set_takeD in_set_dropD)

lemma run_query_department:
  assumes "fst (run_query e s keep flt pg lm) = Inr res" and "f_department flt = Some dept"
  shows "\<forall>d \<in> set (documents res). department d = dept"
proof -
  let ?hits = "filter (\<lambda>d. keep d \<and> matches_filters flt d) (rows_newest_first s)"
  from assms(1) obtain window where w: "page_window pg lm ?hits = Inr window"
      and r: "documents res = window"
    by (auto simp: run_query_def Let_def split: if_splits sum.splits)
  from page_window_subset [OF w] r assms(2) show ?thesis
    by (auto simp: matches_filters_def passes_def)
qed

lemma enhance_documents: "enhance e q docs = Inr hits \<Longrightarrow> map hit_document hits = docs"
  by (induction docs arbitrary: hits) (auto split: sum.splits)

lemma scope_non_admin: "role u \<noteq> ''admin'' \<Longrightarrow> department_scope u r = Some (user_department u)"
  by (simp add: department_scope_def)

text \<open>
  C5. For a user whose role is not admin, every record that the list, the search or the
  single-record fetch returns belongs to the user's own department, and the fetch of a
  record of another department is refused with 403.
\<close>

theorem department_isolation:
  assumes "role u \<noteq> ''admin''"
  shows "(\<forall>pl. list_user lreq = u \<and> payload (fst (getDocuments e s lreq)) = Some pl
            \<longrightarrow> (\<forall>d \<in> set (l_documents pl). department d = user_department u))
       \<and> (\<forall>pl. search_user sreq = u \<and> payload (fst (searchDocuments e s sreq)) = Some pl
            \<longrightarrow> (\<forall>h \<in> set (results_list pl). department (hit_document h) = user_department u))
       \<and> (\<forall>d. payload (fst (getDocumentById e s idp u)) = Some d
            \<longrightarrow> department d = user_department u)
       \<and> (\<forall>i d. idp \<noteq> [] \<and> parseInt idp = Some i \<and> \<not> store_fault e (store_calls s)
              \<and> db s i = Some d \<and> department d \<noteq> user_department u
            \<longrightarrow> fst (getDocumentById e s idp u)
                  = failure 403 ''Access denied - document not in your department'')"
proof (intro conjI allI impI)
  fix pl assume a: "list_user lreq = u \<and> payload (fst (getDocuments e s lreq)) = Some pl"
  let ?q = "DocumentModel_getDocuments e s (list_filters lreq) (int_param (q_page lreq) 1)
              (int_param (q_limit lreq) 20)"
  from a obtain res where res: "fst ?q = Inr res" and docs: "l_documents pl = documents res"
    by (auto simp: getDocuments_def Let_def case_prod_beta server_error_def split: sum.splits)
  have "f_department (list_filters lreq) = Some (user_department u)"
    using a assms by (simp add: list_filters_def no_filters_def scope_non_admin)
  from run_query_department [OF res [unfolded DocumentModel_getDocuments_def] this] docs
  show "\<forall>d \<in> set (l_documents pl). department d = user_department u" by simp
next
  fix pl assume a: "search_user sreq = u \<and> payload (fst (searchDocuments e s sreq)) = Some pl"
  then obtain q where q: "sq_q sreq = Some q" "trim q \<noteq> []"
    by (auto simp: searchDocuments_def failure_def split: option.splits if_splits)
  let ?q = "DocumentModel_searchDocuments e s (trim q) (search_filters sreq)
              (int_param (sq_page sreq) 1) (int_param (sq_limit sreq) 20)"
  from a q obtain res hits where res: "fst ?q = Inr res"
      and hits: "enhance e (trim q) (documents res) = Inr hits"
      and out: "results_list pl = sort_by_relevance hits"
    by (auto simp: searchDocuments_def Let_def case_prod_beta server_error_def split: sum.splits)
  have "f_department (search_filters sreq) = Some (user_department u)"
    using a assms by (simp add: search_filters_def no_filters_def scope_non_admin)
  from run_query_department [OF res [unfolded DocumentModel_searchDocuments_def] this]
  have "\<forall>d \<in> set (map hit_document hits). department d = user_department u"
    by (simp only: enhance_documents [OF hits])
  then show "\<forall>h \<in> set (results_list pl). department (hit_document h) = user_department u"
    by (simp add: out sort_by_relevance_def)
next
  fix d assume "payload (fst (getDocumentById e s idp u)) = Some d"
  then show "department d = user_department u"
    using assms
    by (auto simp: getDocumentById_def DocumentModel_findById_def failure_def server_error_def
        split: if_splits option.splits)
next
  fix i d
  assume "idp \<noteq> [] \<and> parseInt idp = Some i \<and> \<not> store_fault e (store_calls s)
              \<and> db s i = Some d \<and> department d \<noteq> user_department u"
  then show "fst (getDocumentById e s idp u)
               = failure 403 ''Access denied - document not in your department''"
    using assms by (simp add: getDocumentById_def DocumentModel_findById_def)
qed


lemmas query_eval =
  getDocuments_def DocumentModel_getDocuments_def run_query_def rows_newest_first_def
  page_window_def matches_filters_def passes_def list_filters_def no_filters_def
  department_scope_def nonempty_def int_param_def status_name_def tick_def Let_def

lemmas id_eval =
  parseInt_def is_space_def is_digit_def digit_value_def digits_value_def

theorem department_isolation_witness:
  "role safety_engineer \<noteq> ''admin''
   \<and> list_user (list_everything safety_engineer) = safety_engineer
   \<and> payload (fst (getDocuments env_offline archive_state (list_everything safety_engineer)))
       = Some \<lparr> l_documents = [drill_row], l_page = Some 1, l_limit = Some 20, l_total = 1 \<rparr>
   \<and> department drill_row = user_department safety_engineer
   \<and> ''1'' \<noteq> [] \<and> parseInt ''1'' = Some 1 \<and> \<not> store_fault env_offline (store_calls archive_state)
   \<and> db archive_state 1 = Some invoice_row
   \<and> department invoice_row \<noteq> user_department safety_engineer
   \<and> fst (getDocumentById env_offline archive_state ''1'' safety_engineer)
       = failure 403 ''Access denied - document not in your department''"
proof -
  have h0: "role safety_engineer \<noteq> ''admin''" by (simp add: safety_engineer_def)
  have h1: "list_user (list_everything safety_engineer) = safety_engineer"
    by (simp add: list_everything_def)
  have h2: "payload (fst (getDocuments env_offline archive_state (list_everything safety_engineer)))
       = Some \<lparr> l_documents = [drill_row], l_page = Some 1, l_limit = Some 20, l_total = 1 \<rparr>"
    by (simp add: query_eval list_everything_def env_offline_def archive_state_def
          safety_engineer_def invoice_row_def drill_row_def upto.simps)
  have h3: "''1'' \<noteq> [] \<and> parseInt ''1'' = Some 1
      \<and> \<not> store_fault env_offline (store_calls archive_state)
      \<and> db archive_state 1 = Some invoice_row
      \<and> department invoice_row \<noteq> user_department safety_engineer"
    by (simp add: id_eval env_offline_def archive_state_def invoice_row_def safety_engineer_def)
  note t = department_isolation [OF h0, of "list_everything safety_engineer" env_offline
             archive_state _ "''1''"]
  from t h1 h2 have "\<forall>d \<in> set [drill_row]. department d = user_department safety_engineer"
    by fastforce
  then have c1: "department drill_row = user_department safety_engineer" by simp
  from t h3 have c2: "fst (getDocumentById env_offline archive_state ''1'' safety_engineer)
       = failure 403 ''Access denied - document not in your department''"
    by blast
  from h0 h1 h2 h3 c1 c2 show ?thesis by blast
qed


section \<open>Deleting a record whose file is gone\<close>

text \<open>
  C8, amended. A delete by the uploader or an admin, on a record the store holds, removes
  the record and answers success whether or not the backing file is on disk; a missing file
  changes nothing else. In both cases the only log line is the info line that reports the
  deletion: the missing file is not logged.
\<close>

theorem delete_tolerates_missing_file:
  assumes "idp \<noteq> []" and "parseInt idp = Some i" and "\<forall>n. \<not> store_fault e n"
      and "db s i = Some d" and "role u = ''admin'' \<or> uploaded_by d = user_id u"
  shows "\<exists>s'. deleteDocument e s idp u =
           (\<lparr> status_code = 200, success = True,
              message = Some ''Document deleted successfully'', error_text = None,
              payload = None \<rparr>, s',
            [(Info, ''Document deleted: '' @ original_filename d @ '' by user '' @ email u)])
         \<and> db s' i = None
         \<and> fs s' = (fs s)(file_path d := None)
         \<and> (fs s (file_path d) = None \<longrightarrow> fs s' = fs s)"
  using assms
  by (auto simp: deleteDocument_def DocumentModel_findById_def DocumentModel_deleteDocument_def
        existsSync_def tick_def Let_def)

theorem delete_tolerates_missing_file_witness:
  "''1'' \<noteq> [] \<and> parseInt ''1'' = Some 1 \<and> (\<forall>n. \<not> store_fault env_offline n)
   \<and> db archive_state 1 = Some invoice_row
   \<and> (role finance_officer = ''admin'' \<or> uploaded_by invoice_row = user_id finance_officer)
   \<and> fs archive_state (file_path invoice_row) = None
   \<and> (\<exists>s'. deleteDocument env_offline archive_state ''1'' finance_officer =
           (\<lparr> status_code = 200, success = True,
              message = Some ''Document deleted successfully'', error_text = None,
              payload = None \<rparr>, s',
            [(Info, ''Document deleted: '' @ original_filename invoice_row @ '' by user ''
                    @ email finance_officer)])
         \<and> db s' 1 = None \<and> fs s' = fs archive_state)"
proof -
  have h: "''1'' \<noteq> []" "parseInt ''1'' = Some 1" "\<forall>n. \<not> store_fault env_offline n"
      "db archive_state 1 = Some invoice_row"
      "role finance_officer = ''admin'' \<or> uploaded_by invoice_row = user_id finance_officer"
    by (simp_all add: id_eval env_offline_def archive_state_def invoice_row_def
          finance_officer_def)
  have m: "fs archive_state (file_path invoice_row) = None"
    by (simp add: archive_state_def invoice_row_def notice_path_def blank_path_def)
  from delete_tolerates_missing_file [OF h] m h show ?thesis by fastforce
qed

theorem missing_file_not_logged_counterexample:
  "fs archive_state (file_path invoice_row) = None
   \<and> snd (snd (deleteDocument env_offline archive_state ''1'' finance_officer))
       = [(Info, ''Document deleted: invoice_77.pdf by user ravi@kmrl.example'')]
   \<and> \<not> list_ex (\<lambda>entry. fst entry = Warn \<or> fst entry = ErrorLevel)
         (snd (snd (deleteDocument env_offline archive_state ''1'' finance_officer)))"
  by (simp add: deleteDocument_def DocumentModel_findById_def DocumentModel_deleteDocument_def
        existsSync_def tick_def Let_def id_eval env_offline_def archive_state_def
        invoice_row_def drill_row_def finance_officer_def notice_path_def blank_path_def)


section \<open>Search ranking\<close>

subsection \<open>Tokens of a trimmed query\<close>

lemma lower_char_cases: "lower_char c = c \<or> lower_char c \<in> set lower_letters"
proof (cases "map_of (zip upper_letters lower_letters) c")
  case None
  have "lower_char c = c" unfolding lower_char_def None by (rule option.case(1))
  then show ?thesis by (rule disjI1)
next
  case (Some d)
  then have "(c, d) \<in> set (zip upper_letters lower_letters)" by (rule map_of_SomeD)
  then have "d \<in> set lower_letters" by (rule set_zip_rightD)
  moreover have "lower_char c = d" unfolding lower_char_def Some by (rule option.case(2))
  ultimately have "lower_char c \<in> set lower_letters" by (simp only:)
  then show ?thesis by (rule disjI2)
qed

lemma space_cases:
  "is_space d \<Longrightarrow> d = CHR 0x09 \<or> d = CHR 0x0A \<or> d = CHR 0x0B \<or> d = CHR 0x0C \<or> d = CHR 0x0D
      \<or> d = CHR '' '' \<or> d = CHR 0xA0"
  by (simp add: is_space_def)

lemma letter_not_space: "d \<in> set lower_letters \<Longrightarrow> \<not> is_space d"
proof
  assume d: "d \<in> set lower_letters" and sp: "is_space d"
  note lower_letters_def [simp]
  from space_cases [OF sp] show False
  proof (elim disjE)
    assume "d = CHR 0x09" with d show False by simp
  next
    assume "d = CHR 0x0A" with d show False by simp
  next
    assume "d = CHR 0x0B" with d show False by simp
  next
    assume "d = CHR 0x0C" with d show False by simp
  next
    assume "d = CHR 0x0D" with d show False by simp
  next
    assume "d = CHR '' ''" with d show False by simp
  next
    assume "d = CHR 0xA0" with d show False by simp
  qed
qed

lemma lower_not_space: "\<not> is_space c \<Longrightarrow> \<not> is_space (lower_char c)"
proof -
  assume c: "\<not> is_space c"
  from lower_char_cases [of c] show ?thesis
  proof
    assume "lower_char c = c" with c show ?thesis by simp
  next
    assume "lower_char c \<in> set lower_letters"
    then show ?thesis by (rule letter_not_space)
  qed
qed

lemma last_dropWhile: "dropWhile P xs \<noteq> [] \<Longrightarrow> last (dropWhile P xs) = last xs"
  by (induction xs) (auto split: if_splits)

lemma trim_ends:
  assumes "trim q \<noteq> []"
  shows "\<not> is_space (hd (trim q))" and "\<not> is_space (last (trim q))"
proof -
  let ?a = "dropWhile is_space q"
  let ?b = "dropWhile is_space (rev ?a)"
  have b: "?b \<noteq> []" using assms by (simp add: trim_def)
  have a: "?a \<noteq> []"
  proof
    assume "?a = []"
    then have "?b = []" by (simp only: rev.simps dropWhile.simps)
    with b show False by simp
  qed
  have "\<not> is_space (hd ?b)" using b hd_dropWhile [of is_space "rev ?a"] by simp
  then show "\<not> is_space (last (trim q))" using b by (simp add: trim_def last_rev)
  have "last ?b = last (rev ?a)" using b by (rule last_dropWhile)
  also have "\<dots> = hd ?a" using a by (simp add: last_rev)
  finally have "hd (trim q) = hd ?a" using b by (simp add: trim_def hd_rev)
  moreover have "\<not> is_space (hd ?a)" using a hd_dropWhile [of is_space q] by simp
  ultimately show "\<not> is_space (hd (trim q))" by simp
qed


lemma split_ws_last:
  assumes "dropWhile (\<lambda>c. \<not> is_space c) s = []"
  shows "split_ws s = [takeWhile (\<lambda>c. \<not> is_space c) s]"
proof -
  have "split_ws s =
     (let w = takeWhile (\<lambda>c. \<not> is_space c) s; r = dropWhile (\<lambda>c. \<not> is_space c) s
      in if r = [] then [w] else w # split_ws (dropWhile is_space r))"
    by (rule split_ws.simps)
  also have "\<dots> = [takeWhile (\<lambda>c. \<not> is_space c) s]"
    unfolding Let_def by (simp only: assms simp_thms if_True)
  finally show ?thesis .
qed

lemma split_ws_more:
  assumes "dropWhile (\<lambda>c. \<not> is_space c) s \<noteq> []"
  shows "split_ws s = takeWhile (\<lambda>c. \<not> is_space c) s
                  # split_ws (dropWhile is_space (dropWhile (\<lambda>c. \<not> is_space c) s))"
proof -
  have "split_ws s =
     (let w = takeWhile (\<lambda>c. \<not> is_space c) s; r = dropWhile (\<lambda>c. \<not> is_space c) s
      in if r = [] then [w] else w # split_ws (dropWhile is_space r))"
    by (rule split_ws.simps)
  also have "\<dots> = takeWhile (\<lambda>c. \<not> is_space c) s
                  # split_ws (dropWhile is_space (dropWhile (\<lambda>c. \<not> is_space c) s))"
    unfolding Let_def by (simp only: assms simp_thms if_False)
  finally show ?thesis .
qed

lemma split_ws_no_empty:
  "s \<noteq> [] \<Longrightarrow> \<not> is_space (hd s) \<Longrightarrow> \<not> is_space (last s) \<Longrightarrow> [] \<notin> set (split_ws s)"
proof (induction "length s" arbitrary: s rule: less_induct)
  case less
  let ?w = "takeWhile (\<lambda>c. \<not> is_space c) s"
  let ?r = "dropWhile (\<lambda>c. \<not> is_space c) s"
  have w: "?w \<noteq> []" using less.prems(1,2) by (cases s) auto
  show ?case
  proof (cases "?r = []")
    case True
    show ?thesis unfolding split_ws_last [OF True] using w by simp
  next
    case False
    let ?t = "dropWhile is_space ?r"
    have lr: "last ?r = last s" using False by (rule last_dropWhile)
    have t: "?t \<noteq> []"
    proof
      assume "?t = []"
      then have "\<forall>c \<in> set ?r. is_space c" by (simp only: dropWhile_eq_Nil_conv)
      moreover have "last ?r \<in> set ?r" using False by (rule last_in_set)
      ultimately have "is_space (last ?r)" by blast
      with lr less.prems(3) show False by simp
    qed
    have h: "\<not> is_space (hd ?t)" using t by (rule hd_dropWhile)
    have l: "\<not> is_space (last ?t)" using last_dropWhile [OF t] lr less.prems(3) by simp
    have "is_space (hd ?r)" using hd_dropWhile [OF False] by simp
    then have "length ?t < length ?r"
      using False by (cases ?r) (simp_all add: le_imp_less_Suc length_dropWhile_le)
    moreover have "length ?r \<le> length s" by (rule length_dropWhile_le)
    ultimately have "length ?t < length s" by simp
    from less.hyps [OF this t h l] have "[] \<notin> set (split_ws ?t)" .
    then show ?thesis unfolding split_ws_more [OF False] using w by simp
  qed
qed

lemma query_tokens_nonempty:
  assumes "trim q \<noteq> []"
  shows "[] \<notin> set (split_ws (toLowerCase (trim q)))"
proof (rule split_ws_no_empty)
  show "toLowerCase (trim q) \<noteq> []" using assms by (simp add: toLowerCase_def)
  show "\<not> is_space (hd (toLowerCase (trim q)))"
    using assms trim_ends(1) [OF assms] by (simp add: toLowerCase_def hd_map lower_not_space)
  show "\<not> is_space (last (toLowerCase (trim q)))"
    using assms trim_ends(2) [OF assms] by (simp add: toLowerCase_def last_map lower_not_space)
qed

subsection \<open>The score of the code is the weighted sum\<close>

lemma count_pairs:
  "length (filter (\<lambda>(w, kw). P w kw) (List.product ws kws))
     = sum_list (map (\<lambda>w. length (filter (P w) kws)) ws)"
  by (induction ws) (simp_all add: filter_map comp_def)

lemma empty_text_matches_nothing:
  "[] \<notin> set ws \<Longrightarrow> filter (str_includes []) ws = []"
  by (induction ws) auto

lemma score_is_weighted_sum:
  assumes "[] \<notin> set (split_ws (toLowerCase query))"
  shows "calculateRelevanceScore query d = weighted_score query d"
proof -
  have e: "filter (str_includes (toLowerCase [])) (split_ws (toLowerCase query)) = []"
    using empty_text_matches_nothing [OF assms] by (simp add: toLowerCase_def)
  show ?thesis
    by (simp add: calculateRelevanceScore_def weighted_score_def Let_def count_where_def
          count_pairs e split: option.splits)
qed


subsection \<open>Ranking\<close>

lemma enhance_scores:
  "enhance e q docs = Inr hits \<Longrightarrow>
     \<forall>h \<in> set hits. relevance_score h = calculateRelevanceScore q (hit_document h)"
  by (induction docs arbitrary: hits) (auto split: sum.splits)

lemma sort_by_relevance_set [simp]: "set (sort_by_relevance hits) = set hits"
  by (simp add: sort_by_relevance_def)

lemma sort_by_relevance_descending:
  "sorted_wrt (\<lambda>a b. relevance_score b \<le> relevance_score a) (sort_by_relevance hits)"
proof -
  have "sorted (map (\<lambda>h. - int (relevance_score h)) (sort_by_relevance hits))"
    unfolding sort_by_relevance_def by (rule sorted_sort_key)
  then show ?thesis by (simp add: sorted_wrt_map)
qed

lemma sort_by_relevance_stable:
  "filter (\<lambda>h. relevance_score h = k) (sort_by_relevance hits)
     = filter (\<lambda>h. relevance_score h = k) hits"
  using sort_key_stable [of "\<lambda>h. - int (relevance_score h)" "- int k" hits]
  by (simp add: sort_by_relevance_def)


text \<open>
  Whenever the search answers with results, the query is the trimmed, non-empty parameter;
  the results are the documents the store's keyword search returned, each with the weighted
  sum as its relevance score; they are in descending order of the score; and documents of
  equal score keep the order in which the store returned them.
\<close>

lemma ranking_of_answered_search:
  assumes "payload (fst (searchDocuments e s req)) = Some pl"
  shows "\<exists>q res. sq_q req = Some q \<and> trim q \<noteq> [] \<and> search_query pl = trim q
           \<and> fst (DocumentModel_searchDocuments e s (trim q) (search_filters req)
                     (int_param (sq_page req) 1) (int_param (sq_limit req) 20)) = Inr res
           \<and> (\<forall>h \<in> set (results_list pl).
                  relevance_score h = weighted_score (trim q) (hit_document h))
           \<and> sorted_wrt (\<lambda>a b. relevance_score b \<le> relevance_score a) (results_list pl)
           \<and> (\<forall>k. map hit_document (filter (\<lambda>h. relevance_score h = k) (results_list pl))
                    = filter (\<lambda>d. weighted_score (trim q) d = k) (documents res))"
proof -
  from assms obtain q where q: "sq_q req = Some q" "trim q \<noteq> []"
    by (auto simp: searchDocuments_def failure_def split: option.splits if_splits)
  let ?store = "DocumentModel_searchDocuments e s (trim q) (search_filters req)
                  (int_param (sq_page req) 1) (int_param (sq_limit req) 20)"
  from assms q obtain res hits where res: "fst ?store = Inr res"
      and hits: "enhance e (trim q) (documents res) = Inr hits"
      and out: "results_list pl = sort_by_relevance hits"
      and sq: "search_query pl = trim q"
    by (auto simp: searchDocuments_def Let_def case_prod_beta server_error_def split: sum.splits)
  have tok: "[] \<notin> set (split_ws (toLowerCase (trim q)))" by (rule query_tokens_nonempty [OF q(2)])
  have sc: "\<forall>h \<in> set hits. relevance_score h = weighted_score (trim q) (hit_document h)"
    using enhance_scores [OF hits] score_is_weighted_sum [OF tok] by simp
  have stable: "map hit_document (filter (\<lambda>h. relevance_score h = k) (results_list pl))
                  = filter (\<lambda>d. weighted_score (trim q) d = k) (documents res)" for k
  proof -
    have "filter (\<lambda>h. relevance_score h = k) (results_list pl)
            = filter (\<lambda>h. relevance_score h = k) hits"
      unfolding out by (rule sort_by_relevance_stable)
    also have "\<dots> = filter (\<lambda>h. weighted_score (trim q) (hit_document h) = k) hits"
      using sc by (intro filter_cong) auto
    finally have "map hit_document (filter (\<lambda>h. relevance_score h = k) (results_list pl))
            = filter (\<lambda>d. weighted_score (trim q) d = k) (map hit_document hits)"
      by (simp add: filter_map comp_def)
    then show ?thesis by (simp only: enhance_documents [OF hits])
  qed
  from q sq res sc stable sort_by_relevance_descending [of hits] show ?thesis
    by (auto simp: out)
qed

subsection \<open>A query word that is not a pattern\<close>

text \<open>
  C7, at the failing input. The safety engineer searches for \<open>fire (\<close>. The store answers
  with the fire drill of the safety department, whose summary holds these very characters;
  the second query word, the parenthesis, is put into the regular expression as it stands,
  \<open>new RegExp\<close> throws, and the search answers 500 without any result. The search for
  \<open>fire\<close> alone is answered with the same document, its weighted score 13 and a highlight.
\<close>

theorem search_fails_on_unescaped_word:
  "fst (DocumentModel_searchDocuments env_offline archive_state ''fire (''
          (search_filters (search_for ''fire ('' safety_engineer)) (Some 1) (Some 20))
     = Inr \<lparr> documents = [drill_row], total = 1 \<rparr>
   \<and> trim ''fire ('' = ''fire ('' \<and> ai_summary drill_row \<noteq> None
   \<and> extractSearchHighlights env_offline ''fire ('' drill_row = Inl SyntaxError
   \<and> fst (searchDocuments env_offline archive_state (search_for ''fire ('' safety_engineer))
       = \<lparr> status_code = 500, success = False, message = Some ''Search failed'',
           error_text = Some ''Invalid regular expression'', payload = None \<rparr>
   \<and> map_option (\<lambda>pl. map (\<lambda>h. (hit_document h, relevance_score h, search_highlights h))
                          (results_list pl))
        (payload (fst (searchDocuments env_offline archive_state
                         (search_for ''fire'' safety_engineer))))
       = Some [(drill_row, 13, [''...Fire (and smoke) drill plan for al...''])]
   \<and> weighted_score ''fire'' drill_row = 13"
  by code_simp

end
